theory Spec2Isabelle
  imports Main
begin

section \<open>The Big Arrows argument-graph store\<close>

text \<open>
  A shallow embedding of the zustand store \<^verbatim>\<open>useArrowsStore\<close>, of the types it stores,
  of the seed data \<^verbatim>\<open>exampleData\<close> and of the one handler of \<^verbatim>\<open>ArrowPanel\<close> that decides
  between toggling and creating a sub-frame.

  Conventions of the model.
  \<^item> A TypeScript interface is a record. The fields keep the source's names where they are
    unlikely to clash (\<open>hasSubFrame\<close>, \<open>subFrameId\<close>, \<open>nodes\<close>, \<open>arrows\<close>, \<open>level\<close>,
    \<open>parentArrowId\<close>); \<open>id\<close>, \<open>type\<close>, \<open>content\<close>, \<open>source\<close>, \<open>target\<close>, \<open>title\<close> ... carry
    the name of their interface in front (\<open>node_id\<close>, \<open>arrow_source\<close>, \<open>frame_title\<close>).
  \<^item> An optional field \<^verbatim>\<open>f?: T\<close> is a \<open>T option\<close>; \<open>None\<close> is \<^verbatim>\<open>undefined\<close>.
  \<^item> \<^verbatim>\<open>Partial<T>\<close> is a record of options: \<open>None\<close> means that the key is absent from the
    object literal, \<open>Some v\<close> that it is present with value \<open>v\<close>. A key of an optional
    field can be present with the value \<^verbatim>\<open>undefined\<close>, hence \<open>T option option\<close> there.
    Required fields are not given the value \<^verbatim>\<open>undefined\<close>.
  \<^item> \<^verbatim>\<open>Record<string, Frame>\<close> is a plain object: its own keys are a map
    \<open>string \<rightharpoonup> Frame\<close>, and a property read \<^verbatim>\<open>frames[k]\<close> also finds what every plain object
    inherits from \<^verbatim>\<open>Object.prototype\<close> (\<^verbatim>\<open>constructor\<close>, \<^verbatim>\<open>toString\<close>, \<^verbatim>\<open>__proto__\<close>, ...).
    \<open>getFrame\<close> is that read. \<^verbatim>\<open>Object.keys\<close> lists the own keys only, and the only use
    the store makes of their order is
    \<^verbatim>\<open>Object.keys(state.frames).indexOf(currentFrameId) !== -1\<close>, a membership test.
  \<^item> The open record \<^verbatim>\<open>data\<close> of a node, which the store only passes through, is a list of
    pairs of strings.
  \<^item> \<^verbatim>\<open>number\<close> is \<open>int\<close>, for the numbers that are integers: positions are never computed
    with, and the one computation, \<^verbatim>\<open>level + 1\<close>, is \<open>plusOne\<close>, the sum as a double holds
    it. It is \<open>level + 1\<close> on the safe integers (\<open>safeInteger\<close>, below \<open>2 ^ 53\<close> in absolute
    value), and the theorems about it say so. Numbers that are not integers, \<^verbatim>\<open>NaN\<close> and
    the infinities are not in the model.
  \<^item> \<^verbatim>\<open>nanoid()\<close> is an input of the operation that calls it: the generated id is a
    parameter, and the theorems that need it to be new say so. It returns 21 characters
    of \<^verbatim>\<open>A-Za-z0-9_-\<close>, so never \<^verbatim>\<open>__proto__\<close>, the one name whose assignment would not add
    a key.
  \<^item> Calling a method of \<^verbatim>\<open>undefined\<close> throws a \<^verbatim>\<open>TypeError\<close>; the actions that can do so
    return \<open>error + _\<close>. A throw inside \<^verbatim>\<open>set\<close> discards the draft, so the store is as it
    was before the call (\<open>stateAfter\<close>).
\<close>

subsection \<open>Types\<close>

datatype NodeType = Proposition | Axiom | Assumption

datatype ArrowType = Logical | Causal | Supportive

record Position =
  pos_x :: int
  pos_y :: int

type_synonym NodeData = "(string \<times> string) list"

record Node =
  node_id :: string
  node_type :: NodeType
  node_content :: string
  node_position :: Position
  node_data :: "NodeData option"

record Arrow =
  arrow_id :: string
  arrow_source :: string
  arrow_target :: string
  arrow_type :: ArrowType
  hasSubFrame :: bool
  subFrameId :: "string option"

record Frame =
  frame_id :: string
  frame_title :: string
  frame_description :: "string option"
  nodes :: "Node list"
  arrows :: "Arrow list"
  parentArrowId :: "string option"
  level :: int

record PartialNode =
  pn_id :: "string option"
  pn_type :: "NodeType option"
  pn_content :: "string option"
  pn_position :: "Position option"
  pn_data :: "NodeData option option"

record PartialArrow =
  pa_id :: "string option"
  pa_source :: "string option"
  pa_target :: "string option"
  pa_type :: "ArrowType option"
  pa_hasSubFrame :: "bool option"
  pa_subFrameId :: "string option option"

record PartialFrame =
  pf_id :: "string option"
  pf_title :: "string option"
  pf_description :: "string option option"
  pf_nodes :: "Node list option"
  pf_arrows :: "Arrow list option"
  pf_parentArrowId :: "string option option"
  pf_level :: "int option"

record ArrowsState =
  frames :: "string \<rightharpoonup> Frame"
  currentFrameId :: string
  expandedArrowId :: "string option"
  breadcrumbs :: "string list"

datatype error = TypeError

subsection \<open>JavaScript primitives\<close>

text \<open>The value of \<^verbatim>\<open>dflt\<close> overridden by the key of a spread object, if present.\<close>

definition orElse :: "'a option \<Rightarrow> 'a \<Rightarrow> 'a" where
  "orElse p dflt = (case p of None \<Rightarrow> dflt | Some v \<Rightarrow> v)"

text \<open>\<^verbatim>\<open>{...n, ...p}\<close> for each of the three interfaces.\<close>

definition spreadNode :: "Node \<Rightarrow> PartialNode \<Rightarrow> Node" where
  "spreadNode n p =
     \<lparr> node_id = orElse (pn_id p) (node_id n),
       node_type = orElse (pn_type p) (node_type n),
       node_content = orElse (pn_content p) (node_content n),
       node_position = orElse (pn_position p) (node_position n),
       node_data = orElse (pn_data p) (node_data n) \<rparr>"

definition spreadArrow :: "Arrow \<Rightarrow> PartialArrow \<Rightarrow> Arrow" where
  "spreadArrow a p =
     \<lparr> arrow_id = orElse (pa_id p) (arrow_id a),
       arrow_source = orElse (pa_source p) (arrow_source a),
       arrow_target = orElse (pa_target p) (arrow_target a),
       arrow_type = orElse (pa_type p) (arrow_type a),
       hasSubFrame = orElse (pa_hasSubFrame p) (hasSubFrame a),
       subFrameId = orElse (pa_subFrameId p) (subFrameId a) \<rparr>"

definition spreadFrame :: "Frame \<Rightarrow> PartialFrame \<Rightarrow> Frame" where
  "spreadFrame f p =
     \<lparr> frame_id = orElse (pf_id p) (frame_id f),
       frame_title = orElse (pf_title p) (frame_title f),
       frame_description = orElse (pf_description p) (frame_description f),
       nodes = orElse (pf_nodes p) (nodes f),
       arrows = orElse (pf_arrows p) (arrows f),
       parentArrowId = orElse (pf_parentArrowId p) (parentArrowId f),
       level = orElse (pf_level p) (level f) \<rparr>"

text \<open>The object literal \<^verbatim>\<open>{}\<close> at each partial type.\<close>

definition noNodeFields :: PartialNode where
  "noNodeFields = \<lparr> pn_id = None, pn_type = None, pn_content = None,
     pn_position = None, pn_data = None \<rparr>"

definition noArrowFields :: PartialArrow where
  "noArrowFields = \<lparr> pa_id = None, pa_source = None, pa_target = None,
     pa_type = None, pa_hasSubFrame = None, pa_subFrameId = None \<rparr>"

definition noFrameFields :: PartialFrame where
  "noFrameFields = \<lparr> pf_id = None, pf_title = None, pf_description = None,
     pf_nodes = None, pf_arrows = None, pf_parentArrowId = None, pf_level = None \<rparr>"

text \<open>
  \<^verbatim>\<open>Array.prototype.findIndex\<close> and \<^verbatim>\<open>indexOf\<close>: the index of the first match, or \<open>-1\<close>.
  \<^verbatim>\<open>Array.prototype.find\<close> is \<^const>\<open>find\<close> of the list library, and \<^verbatim>\<open>includes\<close> is
  \<open>includesElem\<close>.
\<close>

fun findIndex :: "('a \<Rightarrow> bool) \<Rightarrow> 'a list \<Rightarrow> int" where
  "findIndex P [] = -1"
| "findIndex P (x # xs) =
     (if P x then 0 else (let i = findIndex P xs in if i = -1 then -1 else i + 1))"

definition indexOf :: "'a list \<Rightarrow> 'a \<Rightarrow> int" where
  "indexOf xs v = findIndex (\<lambda>x. x = v) xs"

definition includesElem :: "'a list \<Rightarrow> 'a \<Rightarrow> bool" where
  "includesElem xs v = (v \<in> set xs)"

text \<open>\<^verbatim>\<open>xs.slice(0, e)\<close>: a negative end counts from the end of the array.\<close>

definition slice0 :: "'a list \<Rightarrow> int \<Rightarrow> 'a list" where
  "slice0 xs e = (if e < 0 then take (nat (int (length xs) + e)) xs else take (nat e) xs)"

text \<open>
  The names of the properties of \<^verbatim>\<open>Object.prototype\<close>, which every plain object inherits.
  Their values are functions, and for \<^verbatim>\<open>__proto__\<close> the prototype itself: all truthy, none
  with a property \<^verbatim>\<open>nodes\<close> or \<^verbatim>\<open>arrows\<close>.
\<close>

definition inheritedName :: "string \<Rightarrow> bool" where
  "inheritedName k =
     (k \<in> set [''constructor'', ''__defineGetter__'', ''__defineSetter__'', ''hasOwnProperty'',
               ''__lookupGetter__'', ''__lookupSetter__'', ''isPrototypeOf'',
               ''propertyIsEnumerable'', ''toString'', ''valueOf'', ''__proto__'',
               ''toLocaleString''])"

text \<open>
  The value of \<^verbatim>\<open>frames[k]\<close>: the frame under the own key \<open>k\<close>, else what is inherited
  under that name, else \<^verbatim>\<open>undefined\<close>.
\<close>

datatype PropertyValue = Undefined | Inherited | OwnFrame Frame

definition getFrame :: "(string \<rightharpoonup> Frame) \<Rightarrow> string \<Rightarrow> PropertyValue" where
  "getFrame fs k =
     (case fs k of
        Some f \<Rightarrow> OwnFrame f
      | None \<Rightarrow> if inheritedName k then Inherited else Undefined)"

text \<open>
  \<^verbatim>\<open>n + 1\<close> on an integer \<open>n\<close> that a double holds: exact while the sum is at most \<open>2 ^ 53\<close>
  in absolute value; beyond, the doubles are the even integers up to \<open>2 ^ 54\<close>, where the
  sum lies halfway between \<open>n\<close> and \<open>n + 2\<close> and goes to the one with the even significand,
  and sparser ones after that, where the sum goes back to \<open>n\<close>.
\<close>

definition safeInteger :: "int \<Rightarrow> bool" where
  "safeInteger n = (\<bar>n\<bar> < 2 ^ 53)"

definition plusOne :: "int \<Rightarrow> int" where
  "plusOne n =
     (if \<bar>n + 1\<bar> \<le> 2 ^ 53 then n + 1
      else if \<bar>n\<bar> < 2 ^ 54 then (if even (n div 2) then n else n + 2)
      else n)"

text \<open>The store after a call: as before when the call threw.\<close>

definition stateAfter :: "ArrowsState \<Rightarrow> error + ArrowsState \<Rightarrow> ArrowsState" where
  "stateAfter s r = (case r of Inl e \<Rightarrow> s | Inr s' \<Rightarrow> s')"

text \<open>Truthiness of a \<^verbatim>\<open>string | undefined\<close>: the empty string is falsy too.\<close>

definition truthy :: "string option \<Rightarrow> bool" where
  "truthy v = (case v of None \<Rightarrow> False | Some str \<Rightarrow> str \<noteq> [])"

subsection \<open>Navigation actions\<close>

text \<open>
  \<^verbatim>\<open>expandArrow\<close> calls \<^verbatim>\<open>currentFrame.arrows.find\<close> without a test: it throws when the
  current frame is \<^verbatim>\<open>undefined\<close> and when it is an inherited value, which has no \<^verbatim>\<open>arrows\<close>.
\<close>

definition expandArrow :: "ArrowsState \<Rightarrow> string \<Rightarrow> error + ArrowsState" where
  "expandArrow s arrowId =
     (case getFrame (frames s) (currentFrameId s) of
        Undefined \<Rightarrow> Inl TypeError
      | Inherited \<Rightarrow> Inl TypeError
      | OwnFrame currentFrame \<Rightarrow>
          (case find (\<lambda>a. arrow_id a = arrowId) (arrows currentFrame) of
             None \<Rightarrow> Inr s
           | Some arrow \<Rightarrow>
               if hasSubFrame arrow \<and> truthy (subFrameId arrow)
               then Inr (s\<lparr>expandedArrowId := Some arrowId\<rparr>)
               else Inr s))"

definition collapseArrow :: "ArrowsState \<Rightarrow> ArrowsState" where
  "collapseArrow s = s\<lparr>expandedArrowId := None\<rparr>"

text \<open>
  The guard of \<^verbatim>\<open>navigateToFrame\<close> is the truthiness of \<^verbatim>\<open>get().frames[frameId]\<close>: a frame and
  an inherited value both pass it.
\<close>

definition navigateToFrame :: "ArrowsState \<Rightarrow> string \<Rightarrow> ArrowsState" where
  "navigateToFrame s frameId =
     (case getFrame (frames s) frameId of
        Undefined \<Rightarrow> s
      | _ \<Rightarrow>
          s\<lparr> currentFrameId := frameId,
             expandedArrowId := None,
             breadcrumbs :=
               (if \<not> includesElem (breadcrumbs s) frameId
                then breadcrumbs s @ [frameId]
                else slice0 (breadcrumbs s) (indexOf (breadcrumbs s) frameId + 1)) \<rparr>)"

definition navigateBack :: "ArrowsState \<Rightarrow> ArrowsState" where
  "navigateBack s =
     (if length (breadcrumbs s) > 1
      then s\<lparr> currentFrameId := breadcrumbs s ! (length (breadcrumbs s) - 2),
              expandedArrowId := None,
              breadcrumbs := butlast (breadcrumbs s) \<rparr>
      else s)"

subsection \<open>Editing actions\<close>

text \<open>
  The creating actions return the generated id together with the new state; the first
  string after the frame or arrow id is the value \<^verbatim>\<open>nanoid()\<close> returned.

  Each editing action guards its body with the truthiness of \<^verbatim>\<open>state.frames[frameId]\<close>.
  An inherited value passes the guard, and the body then calls a method of its \<^verbatim>\<open>nodes\<close>
  or \<^verbatim>\<open>arrows\<close>, which is \<^verbatim>\<open>undefined\<close>: the action throws out of \<^verbatim>\<open>set\<close>, before it returns.
\<close>

definition createNode ::
  "ArrowsState \<Rightarrow> string \<Rightarrow> string \<Rightarrow> PartialNode \<Rightarrow> error + (ArrowsState \<times> string)" where
  "createNode s frameId newNodeId node =
     (let newNode = spreadNode
            \<lparr> node_id = newNodeId, node_type = Proposition, node_content = [],
              node_position = \<lparr> pos_x = 100, pos_y = 100 \<rparr>, node_data = None \<rparr> node
      in (case getFrame (frames s) frameId of
            Undefined \<Rightarrow> Inr (s, newNodeId)
          | Inherited \<Rightarrow> Inl TypeError
          | OwnFrame f \<Rightarrow>
              Inr (s\<lparr>frames := (frames s)(frameId \<mapsto> f\<lparr>nodes := nodes f @ [newNode]\<rparr>)\<rparr>,
                   newNodeId)))"

definition updateNode :: "ArrowsState \<Rightarrow> string \<Rightarrow> string \<Rightarrow> PartialNode \<Rightarrow> error + ArrowsState" where
  "updateNode s frameId nodeId updates =
     (case getFrame (frames s) frameId of
        Undefined \<Rightarrow> Inr s
      | Inherited \<Rightarrow> Inl TypeError
      | OwnFrame frame \<Rightarrow>
          (let nodeIndex = findIndex (\<lambda>n. node_id n = nodeId) (nodes frame)
           in if nodeIndex \<noteq> -1
              then Inr (s\<lparr>frames := (frames s)(frameId \<mapsto>
                     frame\<lparr>nodes := (nodes frame)[nat nodeIndex :=
                       spreadNode (nodes frame ! nat nodeIndex) updates]\<rparr>)\<rparr>)
              else Inr s))"

definition deleteNode :: "ArrowsState \<Rightarrow> string \<Rightarrow> string \<Rightarrow> error + ArrowsState" where
  "deleteNode s frameId nodeId =
     (case getFrame (frames s) frameId of
        Undefined \<Rightarrow> Inr s
      | Inherited \<Rightarrow> Inl TypeError
      | OwnFrame frame \<Rightarrow>
          Inr (s\<lparr>frames := (frames s)(frameId \<mapsto>
              frame\<lparr> nodes := filter (\<lambda>n. node_id n \<noteq> nodeId) (nodes frame),
                     arrows := filter (\<lambda>a. arrow_source a \<noteq> nodeId \<and> arrow_target a \<noteq> nodeId)
                                 (arrows frame) \<rparr>)\<rparr>))"

definition createArrow ::
  "ArrowsState \<Rightarrow> string \<Rightarrow> string \<Rightarrow> PartialArrow \<Rightarrow> error + (ArrowsState \<times> string)" where
  "createArrow s frameId newArrowId arrow =
     (let newArrow = spreadArrow
            \<lparr> arrow_id = newArrowId, arrow_source = [], arrow_target = [],
              arrow_type = Logical, hasSubFrame = False, subFrameId = None \<rparr> arrow
      in (case getFrame (frames s) frameId of
            Undefined \<Rightarrow> Inr (s, newArrowId)
          | Inherited \<Rightarrow> Inl TypeError
          | OwnFrame f \<Rightarrow>
              Inr (s\<lparr>frames := (frames s)(frameId \<mapsto> f\<lparr>arrows := arrows f @ [newArrow]\<rparr>)\<rparr>,
                   newArrowId)))"

definition updateArrow :: "ArrowsState \<Rightarrow> string \<Rightarrow> string \<Rightarrow> PartialArrow \<Rightarrow> error + ArrowsState" where
  "updateArrow s frameId arrowId updates =
     (case getFrame (frames s) frameId of
        Undefined \<Rightarrow> Inr s
      | Inherited \<Rightarrow> Inl TypeError
      | OwnFrame frame \<Rightarrow>
          (let arrowIndex = findIndex (\<lambda>a. arrow_id a = arrowId) (arrows frame)
           in if arrowIndex \<noteq> -1
              then Inr (s\<lparr>frames := (frames s)(frameId \<mapsto>
                     frame\<lparr>arrows := (arrows frame)[nat arrowIndex :=
                       spreadArrow (arrows frame ! nat arrowIndex) updates]\<rparr>)\<rparr>)
              else Inr s))"

definition deleteArrow :: "ArrowsState \<Rightarrow> string \<Rightarrow> string \<Rightarrow> error + ArrowsState" where
  "deleteArrow s frameId arrowId =
     (case getFrame (frames s) frameId of
        Undefined \<Rightarrow> Inr s
      | Inherited \<Rightarrow> Inl TypeError
      | OwnFrame frame \<Rightarrow>
          Inr (s\<lparr>frames := (frames s)(frameId \<mapsto>
              frame\<lparr>arrows := filter (\<lambda>a. arrow_id a \<noteq> arrowId) (arrows frame)\<rparr>)\<rparr>))"

subsection \<open>Frame actions\<close>

definition createFrame :: "ArrowsState \<Rightarrow> string \<Rightarrow> PartialFrame \<Rightarrow> ArrowsState \<times> string" where
  "createFrame s newFrameId frame =
     (let newFrame = spreadFrame
            \<lparr> frame_id = newFrameId, frame_title = ''New Frame'', frame_description = Some [],
              nodes = [], arrows = [], parentArrowId = None, level = 0 \<rparr> frame
      in (s\<lparr>frames := (frames s)(newFrameId \<mapsto> newFrame)\<rparr>, newFrameId))"

text \<open>
  \<^verbatim>\<open>createSubFrame\<close> reads the current frame and the arrow from \<^verbatim>\<open>get()\<close> (and throws, as
  \<^verbatim>\<open>expandArrow\<close> does, when the current frame is no frame), returns \<^verbatim>\<open>''\<close> when the arrow is
  missing, and otherwise stores the new frame first and then looks the current frame up
  among the own keys, and the arrow in it, in the state that already holds the new frame.
\<close>

definition createSubFrame ::
  "ArrowsState \<Rightarrow> string \<Rightarrow> string \<Rightarrow> PartialFrame \<Rightarrow> error + (ArrowsState \<times> string)" where
  "createSubFrame s arrowId newFrameId frame =
     (case getFrame (frames s) (currentFrameId s) of
        Undefined \<Rightarrow> Inl TypeError
      | Inherited \<Rightarrow> Inl TypeError
      | OwnFrame currentFrame \<Rightarrow>
          (case find (\<lambda>a. arrow_id a = arrowId) (arrows currentFrame) of
             None \<Rightarrow> Inr (s, [])
           | Some arrow \<Rightarrow>
               (let newFrame = spreadFrame
                      \<lparr> frame_id = newFrameId, frame_title = ''New Sub-Frame'',
                        frame_description = Some [], nodes = [], arrows = [],
                        parentArrowId = Some arrowId, level = plusOne (level currentFrame) \<rparr> frame;
                    frames1 = (frames s)(newFrameId \<mapsto> newFrame)
                in Inr
                  ((case frames1 (currentFrameId s) of
                      None \<Rightarrow> s\<lparr>frames := frames1\<rparr>
                    | Some f \<Rightarrow>
                        (let arrowIndex = findIndex (\<lambda>a. arrow_id a = arrowId) (arrows f)
                         in if arrowIndex \<noteq> -1
                            then s\<lparr>frames := frames1(currentFrameId s \<mapsto>
                                   f\<lparr>arrows := (arrows f)[nat arrowIndex :=
                                     (arrows f ! nat arrowIndex)
                                       \<lparr>hasSubFrame := True, subFrameId := Some newFrameId\<rparr>]\<rparr>)\<rparr>
                            else s\<lparr>frames := frames1\<rparr>)),
                   newFrameId))))"

subsection \<open>The sub-frame button of the arrow panel\<close>

text \<open>
  \<^verbatim>\<open>ArrowPanel\<close> reads the current frame and the arrow when it renders (a current frame
  that is no frame throws there), and its handler \<^verbatim>\<open>handleCreateSubFrame\<close> either re-enables the
  sub-frame the arrow already has or asks the store for a new one. The component's local
  \<^verbatim>\<open>hasSubFrame\<close> flag is not part of the store.
\<close>

text \<open>The separator of the title's template string, as the bytes the source file has.\<close>

definition titleSeparator :: string where
  "titleSeparator = '' '' @ [CHR 0xC3, CHR 0xA2, CHR 0xE2, CHR 0x80, CHR 0xA0, CHR 0xE2, CHR 0x80, CHR 0x99] @ '' ''"

definition handleCreateSubFrame :: "ArrowsState \<Rightarrow> string \<Rightarrow> string \<Rightarrow> error + ArrowsState" where
  "handleCreateSubFrame s arrowId newFrameId =
     (case getFrame (frames s) (currentFrameId s) of
        Undefined \<Rightarrow> Inl TypeError
      | Inherited \<Rightarrow> Inl TypeError
      | OwnFrame frame \<Rightarrow>
          (case find (\<lambda>a. arrow_id a = arrowId) (arrows frame) of
             None \<Rightarrow> Inr s
           | Some arrow \<Rightarrow>
               if truthy (subFrameId arrow)
               then updateArrow s (currentFrameId s) arrowId
                      (noArrowFields\<lparr>pa_hasSubFrame := Some True\<rparr>)
               else
                 (let sourceNode = find (\<lambda>n. node_id n = arrow_source arrow) (nodes frame);
                      targetNode = find (\<lambda>n. node_id n = arrow_target arrow) (nodes frame);
                      title = (case (sourceNode, targetNode) of
                                 (Some sn, Some tn) \<Rightarrow> node_content sn @ titleSeparator @ node_content tn
                               | _ \<Rightarrow> ''New Sub-Frame'')
                  in map_sum (\<lambda>e. e) fst
                       (createSubFrame s arrowId newFrameId
                          (noFrameFields\<lparr> pf_title := Some title,
                             pf_description := Some (Some ''Arguments supporting this relationship'') \<rparr>)))))"

subsection \<open>Seed data and the initial state\<close>

text \<open>The arrow of the seed's titles (U+2192), as its three bytes in UTF-8.\<close>

definition rightArrow :: string where
  "rightArrow = [CHR 0xE2, CHR 0x86, CHR 0x92]"

definition mainFrame :: Frame where
  "mainFrame =
     \<lparr> frame_id = ''main'',
       frame_title = ''Climate Change Policy Argument'',
       frame_description = Some ''Top-level argument structure'',
       nodes =
         [ \<lparr> node_id = ''scientific-evidence'', node_type = Proposition,
             node_content = ''Scientific Evidence'', node_position = \<lparr> pos_x = 250, pos_y = 100 \<rparr>,
             node_data = Some [(''description'', ''Established Knowledge'')] \<rparr>,
           \<lparr> node_id = ''carbon-tax'', node_type = Proposition,
             node_content = ''Carbon Tax Policy'', node_position = \<lparr> pos_x = 650, pos_y = 100 \<rparr>,
             node_data = Some [(''description'', ''Proposed Solution'')] \<rparr>,
           \<lparr> node_id = ''economic-analysis'', node_type = Proposition,
             node_content = ''Economic Analysis'', node_position = \<lparr> pos_x = 250, pos_y = 300 \<rparr>,
             node_data = Some [(''description'', ''Impact Assessment'')] \<rparr>,
           \<lparr> node_id = ''implementation-plan'', node_type = Proposition,
             node_content = ''Implementation Plan'', node_position = \<lparr> pos_x = 650, pos_y = 300 \<rparr>,
             node_data = Some [(''description'', ''Strategic Approach'')] \<rparr> ],
       arrows =
         [ \<lparr> arrow_id = ''arrow-scientific-to-carbon'', arrow_source = ''scientific-evidence'',
             arrow_target = ''carbon-tax'', arrow_type = Logical,
             hasSubFrame = True, subFrameId = Some ''scientific-carbon'' \<rparr>,
           \<lparr> arrow_id = ''arrow-scientific-to-economic'', arrow_source = ''scientific-evidence'',
             arrow_target = ''economic-analysis'', arrow_type = Supportive,
             hasSubFrame = False, subFrameId = None \<rparr>,
           \<lparr> arrow_id = ''arrow-economic-to-implementation'', arrow_source = ''economic-analysis'',
             arrow_target = ''implementation-plan'', arrow_type = Causal,
             hasSubFrame = False, subFrameId = None \<rparr>,
           \<lparr> arrow_id = ''arrow-carbon-to-implementation'', arrow_source = ''carbon-tax'',
             arrow_target = ''implementation-plan'', arrow_type = Logical,
             hasSubFrame = False, subFrameId = None \<rparr> ],
       parentArrowId = None,
       level = 0 \<rparr>"

definition scientificCarbonFrame :: Frame where
  "scientificCarbonFrame =
     \<lparr> frame_id = ''scientific-carbon'',
       frame_title = ''Scientific Evidence '' @ rightArrow @ '' Carbon Tax'',
       frame_description = Some ''Arguments linking scientific evidence to carbon tax policy'',
       nodes =
         [ \<lparr> node_id = ''human-co2'', node_type = Proposition,
             node_content = ''Human Activity '' @ rightArrow @ '' CO2 Increase'',
             node_position = \<lparr> pos_x = 150, pos_y = 100 \<rparr>, node_data = Some [] \<rparr>,
           \<lparr> node_id = ''co2-temp'', node_type = Proposition,
             node_content = ''CO2 Increase '' @ rightArrow @ '' Temperature Rise'',
             node_position = \<lparr> pos_x = 400, pos_y = 100 \<rparr>, node_data = Some [] \<rparr>,
           \<lparr> node_id = ''climate-models'', node_type = Proposition,
             node_content = ''Climate Models'',
             node_position = \<lparr> pos_x = 150, pos_y = 250 \<rparr>, node_data = Some [] \<rparr>,
           \<lparr> node_id = ''carbon-reduction'', node_type = Proposition,
             node_content = ''Need for Carbon Reduction'',
             node_position = \<lparr> pos_x = 400, pos_y = 250 \<rparr>, node_data = Some [] \<rparr>,
           \<lparr> node_id = ''carbon-tax-emissions'', node_type = Proposition,
             node_content = ''Carbon Tax '' @ rightArrow @ '' Emissions Reduction'',
             node_position = \<lparr> pos_x = 275, pos_y = 400 \<rparr>, node_data = Some [] \<rparr> ],
       arrows =
         [ \<lparr> arrow_id = ''arrow-human-to-co2'', arrow_source = ''human-co2'',
             arrow_target = ''co2-temp'', arrow_type = Causal,
             hasSubFrame = False, subFrameId = None \<rparr>,
           \<lparr> arrow_id = ''arrow-co2-to-reduction'', arrow_source = ''co2-temp'',
             arrow_target = ''carbon-reduction'', arrow_type = Logical,
             hasSubFrame = False, subFrameId = None \<rparr>,
           \<lparr> arrow_id = ''arrow-models-to-reduction'', arrow_source = ''climate-models'',
             arrow_target = ''carbon-reduction'', arrow_type = Supportive,
             hasSubFrame = True, subFrameId = Some ''climate-models-detail'' \<rparr>,
           \<lparr> arrow_id = ''arrow-reduction-to-tax'', arrow_source = ''carbon-reduction'',
             arrow_target = ''carbon-tax-emissions'', arrow_type = Logical,
             hasSubFrame = False, subFrameId = None \<rparr> ],
       parentArrowId = Some ''arrow-scientific-to-carbon'',
       level = 1 \<rparr>"

definition climateModelsDetailFrame :: Frame where
  "climateModelsDetailFrame =
     \<lparr> frame_id = ''climate-models-detail'',
       frame_title = ''Climate Models'',
       frame_description = Some ''Details on climate modeling'',
       nodes =
         [ \<lparr> node_id = ''physics'', node_type = Axiom,
             node_content = ''Atmospheric Physics'',
             node_position = \<lparr> pos_x = 100, pos_y = 100 \<rparr>, node_data = Some [] \<rparr>,
           \<lparr> node_id = ''data'', node_type = Proposition,
             node_content = ''Historical Data'',
             node_position = \<lparr> pos_x = 300, pos_y = 100 \<rparr>, node_data = Some [] \<rparr>,
           \<lparr> node_id = ''models'', node_type = Proposition,
             node_content = ''Simulation Models'',
             node_position = \<lparr> pos_x = 200, pos_y = 200 \<rparr>, node_data = Some [] \<rparr> ],
       arrows =
         [ \<lparr> arrow_id = ''arrow-physics-to-models'', arrow_source = ''physics'',
             arrow_target = ''models'', arrow_type = Supportive,
             hasSubFrame = False, subFrameId = None \<rparr>,
           \<lparr> arrow_id = ''arrow-data-to-models'', arrow_source = ''data'',
             arrow_target = ''models'', arrow_type = Supportive,
             hasSubFrame = False, subFrameId = None \<rparr> ],
       parentArrowId = Some ''arrow-models-to-reduction'',
       level = 2 \<rparr>"

definition exampleData :: "string \<rightharpoonup> Frame" where
  "exampleData =
     [ ''main'' \<mapsto> mainFrame,
       ''scientific-carbon'' \<mapsto> scientificCarbonFrame,
       ''climate-models-detail'' \<mapsto> climateModelsDetailFrame ]"

definition initialState :: ArrowsState where
  "initialState =
     \<lparr> frames = exampleData, currentFrameId = ''main'',
       expandedArrowId = None, breadcrumbs = [''main''] \<rparr>"

subsection \<open>Sequences of store operations\<close>

text \<open>
  One constructor for each action of the store, with the arguments of the call and, for
  the creating actions, the id that \<^verbatim>\<open>nanoid()\<close> returns in it. A run stops at the first
  action that throws.
\<close>

datatype Op =
    ExpandArrow string
  | CollapseArrow
  | NavigateToFrame string
  | NavigateBack
  | CreateNode string string PartialNode
  | UpdateNode string string PartialNode
  | DeleteNode string string
  | CreateArrow string string PartialArrow
  | UpdateArrow string string PartialArrow
  | DeleteArrow string string
  | CreateFrame string PartialFrame
  | CreateSubFrame string string PartialFrame

fun step :: "ArrowsState \<Rightarrow> Op \<Rightarrow> error + ArrowsState" where
  "step s (ExpandArrow arrowId) = expandArrow s arrowId"
| "step s CollapseArrow = Inr (collapseArrow s)"
| "step s (NavigateToFrame frameId) = Inr (navigateToFrame s frameId)"
| "step s NavigateBack = Inr (navigateBack s)"
| "step s (CreateNode frameId newId node) =
     map_sum (\<lambda>e. e) fst (createNode s frameId newId node)"
| "step s (UpdateNode frameId nodeId updates) = updateNode s frameId nodeId updates"
| "step s (DeleteNode frameId nodeId) = deleteNode s frameId nodeId"
| "step s (CreateArrow frameId newId arrow) =
     map_sum (\<lambda>e. e) fst (createArrow s frameId newId arrow)"
| "step s (UpdateArrow frameId arrowId updates) = updateArrow s frameId arrowId updates"
| "step s (DeleteArrow frameId arrowId) = deleteArrow s frameId arrowId"
| "step s (CreateFrame newId frame) = Inr (fst (createFrame s newId frame))"
| "step s (CreateSubFrame arrowId newId frame) =
     map_sum (\<lambda>e. e) fst (createSubFrame s arrowId newId frame)"

fun run :: "ArrowsState \<Rightarrow> Op list \<Rightarrow> error + ArrowsState" where
  "run s [] = Inr s"
| "run s (op # ops) = (case step s op of Inl e \<Rightarrow> Inl e | Inr s' \<Rightarrow> run s' ops)"

text \<open>
  The store after a sequence of calls, each made whether or not an earlier one threw: a
  call that throws leaves the store as it was.
\<close>

fun exec :: "ArrowsState \<Rightarrow> Op list \<Rightarrow> ArrowsState" where
  "exec s [] = s"
| "exec s (op # ops) = exec (stateAfter s (step s op)) ops"

subsection \<open>Predicates on states\<close>

text \<open>The ids of the nodes of a frame, and the frames whose arrows all join such ids.\<close>

definition nodeIds :: "Frame \<Rightarrow> string set" where
  "nodeIds f = set (map node_id (nodes f))"

definition frameIntegrity :: "Frame \<Rightarrow> bool" where
  "frameIntegrity f =
     list_all (\<lambda>a. arrow_source a \<in> nodeIds f \<and> arrow_target a \<in> nodeIds f) (arrows f)"

definition referentialIntegrity :: "ArrowsState \<Rightarrow> bool" where
  "referentialIntegrity s = (\<forall>f \<in> ran (frames s). frameIntegrity f)"

text \<open>The trail is not empty and ends with the current frame.\<close>

definition trailEndsAtCurrent :: "ArrowsState \<Rightarrow> bool" where
  "trailEndsAtCurrent s = (breadcrumbs s \<noteq> [] \<and> last (breadcrumbs s) = currentFrameId s)"

text \<open>
  What the store leaves to its callers. The endpoints given to \<^verbatim>\<open>createArrow\<close> and
  \<^verbatim>\<open>updateArrow\<close> are ids of nodes of the frame, \<^verbatim>\<open>updateNode\<close> does not give the node
  another id, and the nodes and arrows among the fields of a new frame are consistent
  with each other. A run honours the contract when each of its actions does, in the state
  in which it is called.
\<close>

definition fieldsIntegrity :: "PartialFrame \<Rightarrow> bool" where
  "fieldsIntegrity frame =
     list_all (\<lambda>a. arrow_source a \<in> set (map node_id (orElse (pf_nodes frame) [])) \<and>
                   arrow_target a \<in> set (map node_id (orElse (pf_nodes frame) [])))
       (orElse (pf_arrows frame) [])"

fun honoursContract :: "ArrowsState \<Rightarrow> Op \<Rightarrow> bool" where
  "honoursContract s (CreateArrow frameId newId arrow) =
     (case frames s frameId of
        None \<Rightarrow> True
      | Some f \<Rightarrow> orElse (pa_source arrow) [] \<in> nodeIds f \<and> orElse (pa_target arrow) [] \<in> nodeIds f)"
| "honoursContract s (UpdateArrow frameId arrowId updates) =
     (case frames s frameId of
        None \<Rightarrow> True
      | Some f \<Rightarrow>
          (case pa_source updates of None \<Rightarrow> True | Some src \<Rightarrow> src \<in> nodeIds f) \<and>
          (case pa_target updates of None \<Rightarrow> True | Some tgt \<Rightarrow> tgt \<in> nodeIds f))"
| "honoursContract s (UpdateNode frameId nodeId updates) =
     (pn_id updates = None \<or> pn_id updates = Some nodeId)"
| "honoursContract s (CreateFrame newId frame) = fieldsIntegrity frame"
| "honoursContract s (CreateSubFrame arrowId newId frame) = fieldsIntegrity frame"
| "honoursContract s _ = True"

fun contractRun :: "ArrowsState \<Rightarrow> Op list \<Rightarrow> bool" where
  "contractRun s [] = True"
| "contractRun s (op # ops) =
     (honoursContract s op \<and>
      (case step s op of Inl e \<Rightarrow> True | Inr s' \<Rightarrow> contractRun s' ops))"

subsection \<open>Concrete states and arguments\<close>

text \<open>
  The seed state after \<^verbatim>\<open>updateArrow\<close> has pointed one of its arrows at a frame id that
  is not a key of \<open>frames\<close>.
\<close>

definition ghostState :: ArrowsState where
  "ghostState =
     stateAfter initialState
       (updateArrow initialState ''main'' ''arrow-scientific-to-economic''
          (noArrowFields\<lparr> pa_hasSubFrame := Some True, pa_subFrameId := Some (Some ''ghost'') \<rparr>))"

text \<open>
  Fields for \<^verbatim>\<open>createSubFrame\<close> that carry a level and an (undefined) parent arrow of
  their own, and the result of the call with them on the seed state.
\<close>

definition overridingFields :: PartialFrame where
  "overridingFields = noFrameFields\<lparr> pf_parentArrowId := Some None, pf_level := Some 7 \<rparr>"

definition overriddenSubFrame :: "error + (ArrowsState \<times> string)" where
  "overriddenSubFrame =
     createSubFrame initialState ''arrow-scientific-to-economic'' ''f2'' overridingFields"

text \<open>
  \<^verbatim>\<open>createSubFrame\<close> on the seed arrow that already has the sub-frame \<^verbatim>\<open>scientific-carbon\<close>.
\<close>

definition reboundSubFrame :: "error + (ArrowsState \<times> string)" where
  "reboundSubFrame = createSubFrame initialState ''arrow-scientific-to-carbon'' ''f2'' noFrameFields"

text \<open>\<^verbatim>\<open>createSubFrame\<close> on the seed state with fields that carry an id of their own.\<close>

definition customIdSubFrame :: "error + (ArrowsState \<times> string)" where
  "customIdSubFrame =
     createSubFrame initialState ''arrow-scientific-to-economic'' ''f2''
       (noFrameFields\<lparr>pf_id := Some ''custom''\<rparr>)"

text \<open>
  The seed state after drilling into \<^verbatim>\<open>scientific-carbon\<close>; the seed state after
  \<^verbatim>\<open>createArrow\<close> without endpoints; and a run that joins two nodes of the main frame and
  then deletes one of them.
\<close>

definition drilledState :: ArrowsState where
  "drilledState = initialState\<lparr> currentFrameId := ''scientific-carbon'',
     breadcrumbs := [''main'', ''scientific-carbon''] \<rparr>"

definition danglingState :: ArrowsState where
  "danglingState =
     stateAfter initialState
       (map_sum (\<lambda>e. e) fst (createArrow initialState ''main'' ''a9'' noArrowFields))"

definition joinedThenDeleted :: "Op list" where
  "joinedThenDeleted =
     [ CreateArrow ''main'' ''a9''
         (noArrowFields\<lparr> pa_source := Some ''carbon-tax'', pa_target := Some ''economic-analysis'' \<rparr>),
       DeleteNode ''main'' ''carbon-tax'' ]"

text \<open>A store whose only frame, the current one, has no node and no arrow.\<close>

definition emptyFrame :: Frame where
  "emptyFrame =
     \<lparr> frame_id = ''f0'', frame_title = ''New Frame'', frame_description = Some [],
       nodes = [], arrows = [], parentArrowId = None, level = 0 \<rparr>"

definition emptyFrameState :: ArrowsState where
  "emptyFrameState =
     \<lparr> frames = [''f0'' \<mapsto> emptyFrame], currentFrameId = ''f0'',
       expandedArrowId = None, breadcrumbs = [''f0''] \<rparr>"

text \<open>The seed state after \<^verbatim>\<open>navigateToFrame\<close> with the inherited name \<^verbatim>\<open>constructor\<close>.\<close>

definition astrayState :: ArrowsState where
  "astrayState = initialState\<lparr> currentFrameId := ''constructor'',
     breadcrumbs := [''main'', ''constructor''] \<rparr>"

section \<open>Properties\<close>

subsection \<open>Array primitives\<close>

lemma findIndex_ge: "- 1 \<le> findIndex P xs"
  by (induction xs) (auto simp: Let_def)

lemma findIndex_none_iff: "findIndex P xs = - 1 \<longleftrightarrow> (\<forall>x \<in> set xs. \<not> P x)"
proof (induction xs)
  case Nil
  show ?case by simp
next
  case (Cons x xs)
  have "- 1 \<le> findIndex P xs" by (rule findIndex_ge)
  with Cons show ?case by (auto simp: Let_def)
qed

lemma findIndex_less: "findIndex P xs < int (length xs)"
  by (induction xs) (auto simp: Let_def)

lemma findIndex_takeWhile: "findIndex P xs \<noteq> - 1 \<Longrightarrow> nat (findIndex P xs) = length (takeWhile (\<lambda>x. \<not> P x) xs)"
proof (induction xs)
  case Nil
  then show ?case by simp
next
  case (Cons x xs)
  have "- 1 \<le> findIndex P xs" by (rule findIndex_ge)
  with Cons show ?case by (auto simp: Let_def nat_add_distrib split: if_splits)
qed

lemma find_findIndex:
  "find P xs = (if findIndex P xs = - 1 then None else Some (xs ! nat (findIndex P xs)))"
proof (induction xs)
  case Nil
  show ?case by simp
next
  case (Cons x xs)
  have "- 1 \<le> findIndex P xs" by (rule findIndex_ge)
  with Cons show ?case by (auto simp: Let_def nat_add_distrib)
qed

lemma find_None_findIndex: "find P xs = None \<longleftrightarrow> findIndex P xs = - 1"
  by (simp add: find_findIndex)

lemma slice0_indexOf:
  assumes "v \<in> set xs"
  shows "slice0 xs (indexOf xs v + 1) = takeWhile (\<lambda>x. x \<noteq> v) xs @ [v]"
proof -
  let ?i = "findIndex (\<lambda>x. x = v) xs"
  from assms have ne: "?i \<noteq> - 1" by (auto simp: findIndex_none_iff)
  have ge: "- 1 \<le> ?i" by (rule findIndex_ge)
  have len: "nat ?i = length (takeWhile (\<lambda>x. x \<noteq> v) xs)"
    using findIndex_takeWhile [OF ne] by simp
  from ne ge have "slice0 xs (indexOf xs v + 1) = take (Suc (nat ?i)) xs"
    by (simp add: slice0_def indexOf_def nat_add_distrib)
  also have "\<dots> = take (Suc (length (takeWhile (\<lambda>x. x \<noteq> v) xs))) xs"
    by (simp only: len)
  also have "\<dots> = takeWhile (\<lambda>x. x \<noteq> v) xs @ [v]"
    using assms
  proof (induction xs)
    case Nil
    then show ?case by simp
  next
    case (Cons a xs)
    then show ?case by auto
  qed
  finally show ?thesis .
qed

lemma find_Some_set: "find P xs = Some a \<Longrightarrow> a \<in> set xs \<and> P a"
  by (induction xs) (auto split: if_splits)

lemma find_Some_findIndex:
  assumes "find P xs = Some a"
  shows "findIndex P xs \<noteq> - 1" and "xs ! nat (findIndex P xs) = a" and "P a"
  using assms find_Some_set [OF assms] by (auto simp: find_findIndex split: if_splits)

lemma find_list_update:
  "findIndex P xs \<noteq> - 1 \<Longrightarrow> P y \<Longrightarrow> find P (xs[nat (findIndex P xs) := y]) = Some y"
proof (induction xs)
  case Nil
  then show ?case by simp
next
  case (Cons x xs)
  have "- 1 \<le> findIndex P xs" by (rule findIndex_ge)
  with Cons show ?case
    by (auto simp: Let_def nat_add_distrib split: if_splits)
qed

lemma findIndex_nth:
  assumes "findIndex P xs \<noteq> - 1"
  shows "nat (findIndex P xs) < length xs" and "P (xs ! nat (findIndex P xs))"
proof -
  from assms findIndex_ge [of P xs] have ge: "0 \<le> findIndex P xs" by linarith
  with findIndex_less [of P xs] show "nat (findIndex P xs) < length xs" by linarith
  from assms have "find P xs = Some (xs ! nat (findIndex P xs))"
    by (simp add: find_findIndex)
  from find_Some_set [OF this] show "P (xs ! nat (findIndex P xs))" by simp
qed

subsection \<open>Property reads and the sum of a level and one\<close>

lemma getFrame_own: "fs k = Some f \<Longrightarrow> getFrame fs k = OwnFrame f"
  by (simp add: getFrame_def)

lemma getFrame_inherited: "fs k = None \<Longrightarrow> inheritedName k \<Longrightarrow> getFrame fs k = Inherited"
  by (simp add: getFrame_def)

lemma getFrame_undefined: "fs k = None \<Longrightarrow> \<not> inheritedName k \<Longrightarrow> getFrame fs k = Undefined"
  by (simp add: getFrame_def)

lemma getFrame_OwnFrame_iff: "getFrame fs k = OwnFrame f \<longleftrightarrow> fs k = Some f"
  by (auto simp: getFrame_def split: option.splits)

lemma getFrame_Undefined_iff: "getFrame fs k = Undefined \<longleftrightarrow> fs k = None \<and> \<not> inheritedName k"
  by (auto simp: getFrame_def split: option.splits)

lemma plusOne_safe: "safeInteger n \<Longrightarrow> plusOne n = n + 1"
  by (auto simp: safeInteger_def plusOne_def)

lemma stateAfter_simps [simp]: "stateAfter s (Inl e) = s" "stateAfter s (Inr s') = s'"
  by (simp_all add: stateAfter_def)

subsection \<open>Facts about the seed state\<close>

lemma ran_exampleData: "ran exampleData = {mainFrame, scientificCarbonFrame, climateModelsDetailFrame}"
  by (simp add: exampleData_def insert_commute)

lemma nodeIds_seed:
  "nodeIds mainFrame = {''scientific-evidence'', ''carbon-tax'', ''economic-analysis'', ''implementation-plan''}"
  "nodeIds scientificCarbonFrame
     = {''human-co2'', ''co2-temp'', ''climate-models'', ''carbon-reduction'', ''carbon-tax-emissions''}"
  "nodeIds climateModelsDetailFrame = {''physics'', ''data'', ''models''}"
  by (simp_all add: nodeIds_def mainFrame_def scientificCarbonFrame_def climateModelsDetailFrame_def)

lemma seed_frames:
  "frames initialState ''main'' = Some mainFrame"
  "frames initialState ''scientific-carbon'' = Some scientificCarbonFrame"
  "frames initialState ''climate-models-detail'' = Some climateModelsDetailFrame"
  by (simp_all add: initialState_def exampleData_def)

lemma seed_fields:
  "currentFrameId initialState = ''main''" "expandedArrowId initialState = None"
  "breadcrumbs initialState = [''main'']"
  by (simp_all add: initialState_def)

lemma seed_current: "frames initialState (currentFrameId initialState) = Some mainFrame"
  by (simp add: initialState_def exampleData_def)

lemma seed_main: "frames initialState ''main'' = Some mainFrame"
  by (simp add: initialState_def exampleData_def)

lemma seed_find_economic:
  "find (\<lambda>a. arrow_id a = ''arrow-scientific-to-economic'') (arrows mainFrame) = Some (arrows mainFrame ! 1)"
  by (simp add: mainFrame_def)

lemma seed_find_carbon:
  "find (\<lambda>a. arrow_id a = ''arrow-scientific-to-carbon'') (arrows mainFrame) = Some (arrows mainFrame ! 0)"
  by (simp add: mainFrame_def)

lemma seed_no_f2: "frames initialState ''f2'' = None"
  by (simp add: initialState_def exampleData_def)

lemma seed_no_constructor: "frames initialState ''constructor'' = None"
  by (simp add: initialState_def exampleData_def)

lemma inherited_constructor: "inheritedName ''constructor''"
  by (simp add: inheritedName_def)

lemma not_inherited_nowhere: "\<not> inheritedName ''nowhere''"
  by (simp add: inheritedName_def)

lemma seed_level: "level mainFrame = 0" "safeInteger (level mainFrame)"
  by (simp_all add: mainFrame_def safeInteger_def)

subsection \<open>Navigation to a frame\<close>

text \<open>
  For a key of \<open>frames\<close>, \<^verbatim>\<open>navigateToFrame\<close> makes it the current frame, clears
  \<open>expandedArrowId\<close>, leaves \<open>frames\<close> alone and updates the trail: a frame that is not in
  the trail is appended, a frame that is in it makes the trail end at its first
  occurrence. A name that is neither a key nor inherited changes nothing.
\<close>

lemma takeWhile_prefix:
  "v \<in> set xs \<Longrightarrow> \<exists>d. xs = takeWhile (\<lambda>b. b \<noteq> v) xs @ v # d"
  by (induction xs) auto

lemma navigateToFrame_passes:
  assumes "getFrame (frames s) frameId \<noteq> Undefined"
  shows "navigateToFrame s frameId =
           s\<lparr> currentFrameId := frameId, expandedArrowId := None,
              breadcrumbs := (if frameId \<in> set (breadcrumbs s)
                              then takeWhile (\<lambda>b. b \<noteq> frameId) (breadcrumbs s) @ [frameId]
                              else breadcrumbs s @ [frameId]) \<rparr>"
  using assms
  by (cases "getFrame (frames s) frameId")
    (simp_all add: navigateToFrame_def includesElem_def slice0_indexOf)

lemma navigateToFrame_own_key:
  assumes "frames s frameId = Some f"
  shows "currentFrameId (navigateToFrame s frameId) = frameId"
    and "expandedArrowId (navigateToFrame s frameId) = None"
    and "frames (navigateToFrame s frameId) = frames s"
    and "frameId \<notin> set (breadcrumbs s) \<Longrightarrow>
           breadcrumbs (navigateToFrame s frameId) = breadcrumbs s @ [frameId]"
    and "frameId \<in> set (breadcrumbs s) \<Longrightarrow>
           breadcrumbs (navigateToFrame s frameId)
             = takeWhile (\<lambda>b. b \<noteq> frameId) (breadcrumbs s) @ [frameId] \<and>
           (\<exists>discarded. breadcrumbs s = breadcrumbs (navigateToFrame s frameId) @ discarded)"
proof -
  from assms have p: "getFrame (frames s) frameId \<noteq> Undefined"
    by (simp add: getFrame_own)
  note n = navigateToFrame_passes [OF p]
  show "currentFrameId (navigateToFrame s frameId) = frameId"
    and "expandedArrowId (navigateToFrame s frameId) = None"
    and "frames (navigateToFrame s frameId) = frames s"
    by (simp_all add: n)
  show "breadcrumbs (navigateToFrame s frameId) = breadcrumbs s @ [frameId]"
    if "frameId \<notin> set (breadcrumbs s)"
    using that by (simp add: n)
  show "breadcrumbs (navigateToFrame s frameId)
             = takeWhile (\<lambda>b. b \<noteq> frameId) (breadcrumbs s) @ [frameId] \<and>
           (\<exists>discarded. breadcrumbs s = breadcrumbs (navigateToFrame s frameId) @ discarded)"
    if "frameId \<in> set (breadcrumbs s)"
    using that takeWhile_prefix [OF that] by (simp add: n)
qed

lemma navigateToFrame_undefined:
  "frames s frameId = None \<Longrightarrow> \<not> inheritedName frameId \<Longrightarrow> navigateToFrame s frameId = s"
  by (simp add: navigateToFrame_def getFrame_undefined)

text \<open>
  Claim C5, where the code departs from it. A name that is not a key of \<open>frames\<close> but is
  inherited from \<^verbatim>\<open>Object.prototype\<close> passes the guard of \<^verbatim>\<open>navigateToFrame\<close>: the call makes
  it the current frame, clears \<open>expandedArrowId\<close> and puts it on the trail, where the claim
  has the call change nothing. A name not yet on the trail is appended, so the state
  after the call is another one.
\<close>

theorem navigateToFrame_inherited_name:
  assumes "frames s frameId = None" and "inheritedName frameId"
  shows "navigateToFrame s frameId =
           s\<lparr> currentFrameId := frameId, expandedArrowId := None,
              breadcrumbs := (if frameId \<in> set (breadcrumbs s)
                              then takeWhile (\<lambda>b. b \<noteq> frameId) (breadcrumbs s) @ [frameId]
                              else breadcrumbs s @ [frameId]) \<rparr> \<and>
         (frameId \<notin> set (breadcrumbs s) \<longrightarrow> navigateToFrame s frameId \<noteq> s)"
proof -
  from assms have p: "getFrame (frames s) frameId \<noteq> Undefined"
    by (simp add: getFrame_inherited)
  note n = navigateToFrame_passes [OF p]
  have "navigateToFrame s frameId \<noteq> s" if "frameId \<notin> set (breadcrumbs s)"
  proof
    assume "navigateToFrame s frameId = s"
    then have "breadcrumbs (navigateToFrame s frameId) = breadcrumbs s" by simp
    with that show False by (simp add: n)
  qed
  with n show ?thesis by blast
qed

text \<open>
  On the seed state: \<^verbatim>\<open>constructor\<close> is no key of \<open>frames\<close>, and \<^verbatim>\<open>navigateToFrame\<close> makes it
  the current frame and the last entry of the trail.
\<close>

theorem navigateToFrame_inherited_name_witness:
  "frames initialState ''constructor'' = None \<and> inheritedName ''constructor'' \<and>
   ''constructor'' \<notin> set (breadcrumbs initialState) \<and>
   navigateToFrame initialState ''constructor''
     = initialState\<lparr> currentFrameId := ''constructor'',
         breadcrumbs := [''main'', ''constructor''] \<rparr> \<and>
   navigateToFrame initialState ''constructor'' \<noteq> initialState"
proof -
  have b: "''constructor'' \<notin> set (breadcrumbs initialState)"
    by (simp add: seed_fields)
  note t = navigateToFrame_inherited_name [OF seed_no_constructor inherited_constructor]
  from t b have 1: "navigateToFrame initialState ''constructor''
     = initialState\<lparr> currentFrameId := ''constructor'',
         breadcrumbs := [''main'', ''constructor''] \<rparr>"
    by (simp add: seed_fields)
  from t b have 2: "navigateToFrame initialState ''constructor'' \<noteq> initialState"
    by blast
  from seed_no_constructor inherited_constructor b 1 2 show ?thesis by (intro conjI)
qed

subsection \<open>Deleting a node\<close>

text \<open>
  Claim C7. For a frame \<open>f\<close> stored under \<open>frameId\<close>, \<^verbatim>\<open>deleteNode(frameId, nodeId)\<close> returns,
  and keeps, in their order, the nodes whose id is not \<open>nodeId\<close> and the arrows of which
  neither the source nor the target is \<open>nodeId\<close>: the arrows removed are exactly the arrows
  incident to \<open>nodeId\<close>. The other fields of the frame, the other frames, the key set of
  \<open>frames\<close> and the navigation state are unchanged.
\<close>

theorem deleteNode_cascade:
  assumes "frames s frameId = Some f"
  shows "\<exists>s'. deleteNode s frameId nodeId = Inr s' \<and>
         (\<exists>f'. frames s' frameId = Some f' \<and>
           nodes f' = filter (\<lambda>n. node_id n \<noteq> nodeId) (nodes f) \<and>
           arrows f' = filter (\<lambda>a. \<not> (arrow_source a = nodeId \<or> arrow_target a = nodeId)) (arrows f) \<and>
           nodeId \<notin> nodeIds f' \<and>
           set (arrows f) - set (arrows f')
             = {a \<in> set (arrows f). arrow_source a = nodeId \<or> arrow_target a = nodeId} \<and>
           frame_id f' = frame_id f \<and> frame_title f' = frame_title f \<and>
           frame_description f' = frame_description f \<and>
           parentArrowId f' = parentArrowId f \<and> level f' = level f) \<and>
         (\<forall>other. other \<noteq> frameId \<longrightarrow> frames s' other = frames s other) \<and>
         dom (frames s') = dom (frames s) \<and>
         currentFrameId s' = currentFrameId s \<and>
         expandedArrowId s' = expandedArrowId s \<and>
         breadcrumbs s' = breadcrumbs s"
  using assms by (auto simp: deleteNode_def getFrame_own nodeIds_def)

text \<open>Deleting \<^verbatim>\<open>carbon-tax\<close> from the seed's main frame removes its two incident arrows.\<close>

theorem deleteNode_cascade_witness:
  "frames initialState ''main'' = Some mainFrame \<and>
   (\<exists>s' f'. deleteNode initialState ''main'' ''carbon-tax'' = Inr s' \<and>
      frames s' ''main'' = Some f' \<and>
      map node_id (nodes f') = [''scientific-evidence'', ''economic-analysis'', ''implementation-plan''] \<and>
      map arrow_id (arrows f') = [''arrow-scientific-to-economic'', ''arrow-economic-to-implementation''] \<and>
      frames s' ''scientific-carbon'' = Some scientificCarbonFrame)"
proof -
  note h = seed_main
  note o = seed_frames(2)
  from deleteNode_cascade [OF h, of "''carbon-tax''"] obtain s' f' where
    r: "deleteNode initialState ''main'' ''carbon-tax'' = Inr s'"
    and f': "frames s' ''main'' = Some f'"
    "nodes f' = filter (\<lambda>n. node_id n \<noteq> ''carbon-tax'') (nodes mainFrame)"
    "arrows f' = filter (\<lambda>a. \<not> (arrow_source a = ''carbon-tax'' \<or> arrow_target a = ''carbon-tax'')) (arrows mainFrame)"
    and others: "\<forall>other. other \<noteq> ''main'' \<longrightarrow> frames s' other = frames initialState other"
    by blast
  have n: "map node_id (nodes f') = [''scientific-evidence'', ''economic-analysis'', ''implementation-plan'']"
    by (simp add: f'(2) mainFrame_def)
  have a: "map arrow_id (arrows f') = [''arrow-scientific-to-economic'', ''arrow-economic-to-implementation'']"
    by (simp add: f'(3) mainFrame_def)
  from others have "frames s' ''scientific-carbon'' = frames initialState ''scientific-carbon''"
    by simp
  with o have sc: "frames s' ''scientific-carbon'' = Some scientificCarbonFrame" by simp
  from r f'(1) n a sc have "\<exists>s' f'. deleteNode initialState ''main'' ''carbon-tax'' = Inr s' \<and>
      frames s' ''main'' = Some f' \<and>
      map node_id (nodes f') = [''scientific-evidence'', ''economic-analysis'', ''implementation-plan''] \<and>
      map arrow_id (arrows f') = [''arrow-scientific-to-economic'', ''arrow-economic-to-implementation''] \<and>
      frames s' ''scientific-carbon'' = Some scientificCarbonFrame"
    by (intro exI conjI)
  with h show ?thesis by (intro conjI)
qed

subsection \<open>Expanding an arrow\<close>

text \<open>
  Claim C3, as the code has it. When the current frame exists, \<^verbatim>\<open>expandArrow(arrowId)\<close>
  sets \<open>expandedArrowId\<close> to \<open>arrowId\<close> exactly when the first arrow of the current frame
  with that id has \<open>hasSubFrame\<close> true and a non-empty \<open>subFrameId\<close>, and changes nothing
  else; in every other case the state is unchanged. Whether \<open>subFrameId\<close> is a key of
  \<open>frames\<close> is not looked at.
\<close>

theorem expandArrow_gating:
  assumes "frames s (currentFrameId s) = Some cf"
  shows "expandArrow s arrowId =
           Inr (if (\<exists>a. find (\<lambda>a. arrow_id a = arrowId) (arrows cf) = Some a \<and> hasSubFrame a \<and>
                        (\<exists>sf. subFrameId a = Some sf \<and> sf \<noteq> []))
                then s\<lparr>expandedArrowId := Some arrowId\<rparr> else s) \<and>
         (expandArrow s arrowId = Inr s \<or>
            expandArrow s arrowId = Inr (s\<lparr>expandedArrowId := Some arrowId\<rparr>) \<and>
            (\<exists>a \<in> set (arrows cf). arrow_id a = arrowId \<and> hasSubFrame a \<and> subFrameId a \<noteq> None))"
proof (cases "find (\<lambda>a. arrow_id a = arrowId) (arrows cf)")
  case None
  with assms show ?thesis by (simp add: expandArrow_def getFrame_own)
next
  case (Some a)
  from find_Some_set [OF Some] have "a \<in> set (arrows cf)" "arrow_id a = arrowId" by simp_all
  with assms Some show ?thesis
    by (cases "subFrameId a") (auto simp: expandArrow_def getFrame_own truthy_def)
qed

text \<open>
  On the seed state: the arrow with a sub-frame is expanded, the arrow without one and an
  unknown arrow leave the state as it is.
\<close>

theorem expandArrow_gating_witness:
  "frames initialState (currentFrameId initialState) = Some mainFrame \<and>
   expandArrow initialState ''arrow-scientific-to-carbon''
     = Inr (initialState\<lparr>expandedArrowId := Some ''arrow-scientific-to-carbon''\<rparr>) \<and>
   expandArrow initialState ''arrow-scientific-to-economic'' = Inr initialState \<and>
   expandArrow initialState ''no-such-arrow'' = Inr initialState"
proof -
  have h: "frames initialState (currentFrameId initialState) = Some mainFrame"
    by (simp add: initialState_def exampleData_def)
  have a: "find (\<lambda>a. arrow_id a = ''arrow-scientific-to-carbon'') (arrows mainFrame) = Some (arrows mainFrame ! 0)"
    by (simp add: mainFrame_def)
  have b: "find (\<lambda>a. arrow_id a = ''arrow-scientific-to-economic'') (arrows mainFrame) = Some (arrows mainFrame ! 1)"
    by (simp add: mainFrame_def)
  have c: "find (\<lambda>a. arrow_id a = ''no-such-arrow'') (arrows mainFrame) = None"
    by (simp add: mainFrame_def)
  have a': "hasSubFrame (arrows mainFrame ! 0)" "subFrameId (arrows mainFrame ! 0) = Some ''scientific-carbon''"
    by (simp_all add: mainFrame_def)
  have b': "\<not> hasSubFrame (arrows mainFrame ! 1)"
    by (simp add: mainFrame_def)
  from expandArrow_gating [OF h, of "''arrow-scientific-to-carbon''"] a a'
  have 1: "expandArrow initialState ''arrow-scientific-to-carbon''
     = Inr (initialState\<lparr>expandedArrowId := Some ''arrow-scientific-to-carbon''\<rparr>)"
    by simp
  from expandArrow_gating [OF h, of "''arrow-scientific-to-economic''"] b b'
  have 2: "expandArrow initialState ''arrow-scientific-to-economic'' = Inr initialState"
    by simp
  from expandArrow_gating [OF h, of "''no-such-arrow''"] c
  have 3: "expandArrow initialState ''no-such-arrow'' = Inr initialState"
    by simp
  from h 1 2 3 show ?thesis by simp
qed

lemma ghostState_main:
  "frames ghostState ''main'' = Some (mainFrame\<lparr>arrows := (arrows mainFrame)[1 :=
     (arrows mainFrame ! 1)\<lparr>hasSubFrame := True, subFrameId := Some ''ghost''\<rparr>]\<rparr>)"
  by (simp add: ghostState_def updateArrow_def getFrame_def initialState_def exampleData_def
      mainFrame_def spreadArrow_def noArrowFields_def orElse_def Let_def)

text \<open>
  The guard does not ask for the sub-frame to exist: in \<open>ghostState\<close> the arrow
  \<^verbatim>\<open>arrow-scientific-to-economic\<close> has \<open>hasSubFrame\<close> true and the \<open>subFrameId\<close> \<^verbatim>\<open>ghost\<close>,
  which is not a key of \<open>frames\<close>, and \<^verbatim>\<open>expandArrow\<close> sets \<open>expandedArrowId\<close> to it.
\<close>

theorem expandArrow_unresolved_counterexample:
  "frames ghostState ''ghost'' = None \<and>
   currentFrameId ghostState = ''main'' \<and>
   expandedArrowId ghostState = None \<and>
   map arrow_id (arrows (the (frames ghostState ''main'')))
     = [''arrow-scientific-to-carbon'', ''arrow-scientific-to-economic'',
        ''arrow-economic-to-implementation'', ''arrow-carbon-to-implementation''] \<and>
   map subFrameId (arrows (the (frames ghostState ''main'')))
     = [Some ''scientific-carbon'', Some ''ghost'', None, None] \<and>
   expandArrow ghostState ''arrow-scientific-to-economic''
     = Inr (ghostState\<lparr>expandedArrowId := Some ''arrow-scientific-to-economic''\<rparr>)"
proof -
  have g: "frames ghostState ''ghost'' = None"
    by (simp add: ghostState_def updateArrow_def getFrame_def initialState_def exampleData_def Let_def)
  have c: "currentFrameId ghostState = ''main''" "expandedArrowId ghostState = None"
    by (simp_all add: ghostState_def updateArrow_def getFrame_def initialState_def exampleData_def Let_def)
  have ids: "map arrow_id (arrows (the (frames ghostState ''main'')))
     = [''arrow-scientific-to-carbon'', ''arrow-scientific-to-economic'',
        ''arrow-economic-to-implementation'', ''arrow-carbon-to-implementation'']"
    by (simp add: ghostState_main) (simp add: mainFrame_def)
  have subs: "map subFrameId (arrows (the (frames ghostState ''main'')))
     = [Some ''scientific-carbon'', Some ''ghost'', None, None]"
    by (simp add: ghostState_main) (simp add: mainFrame_def)
  have e: "expandArrow ghostState ''arrow-scientific-to-economic''
     = Inr (ghostState\<lparr>expandedArrowId := Some ''arrow-scientific-to-economic''\<rparr>)"
    by (simp add: expandArrow_def getFrame_def c ghostState_main) (simp add: mainFrame_def truthy_def)
  from g c ids subs e show ?thesis by simp
qed

subsection \<open>Creating a node in a frame that does not exist\<close>

text \<open>
  For a name that is neither a key of \<open>frames\<close> nor inherited, \<^verbatim>\<open>createNode\<close> changes nothing
  and returns the id it generated.
\<close>

lemma createNode_undefined:
  "frames s frameId = None \<Longrightarrow> \<not> inheritedName frameId \<Longrightarrow>
   createNode s frameId newNodeId node = Inr (s, newNodeId)"
  by (simp add: createNode_def getFrame_undefined)

text \<open>
  Claim C6, where the code departs from it. For a name that is not a key of \<open>frames\<close> but
  is inherited from \<^verbatim>\<open>Object.prototype\<close>, the guard of \<^verbatim>\<open>createNode\<close> passes and the call of
  \<^verbatim>\<open>nodes.push\<close> throws: the store is unchanged, but the call does not return an id, it is
  no silent no-op.
\<close>

theorem createNode_inherited_name:
  assumes "frames s frameId = None" and "inheritedName frameId"
  shows "createNode s frameId newNodeId node = Inl TypeError \<and>
         stateAfter s (map_sum (\<lambda>e. e) fst (createNode s frameId newNodeId node)) = s"
  using assms by (simp add: createNode_def getFrame_inherited)

text \<open>On the seed state, with the frame id \<^verbatim>\<open>constructor\<close>; with \<^verbatim>\<open>nowhere\<close> the call returns.\<close>

theorem createNode_inherited_name_witness:
  "frames initialState ''constructor'' = None \<and> inheritedName ''constructor'' \<and>
   createNode initialState ''constructor'' ''V1StGXR8_Z5jdHi6B-myT'' noNodeFields = Inl TypeError \<and>
   createNode initialState ''nowhere'' ''V1StGXR8_Z5jdHi6B-myT'' noNodeFields
     = Inr (initialState, ''V1StGXR8_Z5jdHi6B-myT'')"
proof -
  from createNode_inherited_name [OF seed_no_constructor inherited_constructor,
      of "''V1StGXR8_Z5jdHi6B-myT''" noNodeFields]
  have 1: "createNode initialState ''constructor'' ''V1StGXR8_Z5jdHi6B-myT'' noNodeFields = Inl TypeError"
    by blast
  have n: "frames initialState ''nowhere'' = None"
    by (simp add: initialState_def exampleData_def)
  note 2 = createNode_undefined [OF n not_inherited_nowhere, of "''V1StGXR8_Z5jdHi6B-myT''" noNodeFields]
  from seed_no_constructor inherited_constructor 1 2 show ?thesis by (intro conjI)
qed

subsection \<open>The level and the parent of a new sub-frame\<close>

lemma createSubFrame_new_frame:
  assumes "frames s (currentFrameId s) = Some cf"
    and "find (\<lambda>a. arrow_id a = arrowId) (arrows cf) = Some a"
  shows "\<exists>s' f. createSubFrame s arrowId newFrameId frame = Inr (s', newFrameId) \<and>
           frames s' newFrameId = Some f \<and>
           frame_id f = orElse (pf_id frame) newFrameId \<and>
           level f = orElse (pf_level frame) (plusOne (level cf)) \<and>
           parentArrowId f = orElse (pf_parentArrowId frame) (Some arrowId)"
  using assms
  by (auto simp: createSubFrame_def getFrame_own Let_def spreadFrame_def)

lemma plusOne_at_limit: "plusOne (2 ^ 53) = 2 ^ 53"
  by (simp add: plusOne_def)

text \<open>
  Claim C4, as the code has it. When \<open>arrowId\<close> resolves in the current frame,
  \<^verbatim>\<open>createSubFrame(arrowId, fields)\<close> stores a frame under the generated id and returns that
  id, whatever other frames exist and whether or not the arrow had a sub-frame. When the
  current frame's level is a safe integer, the frame's level is that level plus 1 unless
  \<open>fields\<close> has a key \<open>level\<close>, and its \<open>parentArrowId\<close> is \<open>arrowId\<close> unless \<open>fields\<close> has a key
  \<open>parentArrowId\<close>: a key of \<open>fields\<close> wins, since \<open>fields\<close> is spread last.
\<close>

theorem createSubFrame_level:
  assumes "frames s (currentFrameId s) = Some cf"
    and "find (\<lambda>a. arrow_id a = arrowId) (arrows cf) = Some a"
    and "safeInteger (level cf)"
  shows "\<exists>s' f. createSubFrame s arrowId newFrameId frame = Inr (s', newFrameId) \<and>
           frames s' newFrameId = Some f \<and>
           level f = (case pf_level frame of None \<Rightarrow> level cf + 1 | Some l \<Rightarrow> l) \<and>
           parentArrowId f = (case pf_parentArrowId frame of None \<Rightarrow> Some arrowId | Some p \<Rightarrow> p)"
  using createSubFrame_new_frame [OF assms(1,2), of newFrameId frame] plusOne_safe [OF assms(3)]
  by (auto simp: orElse_def)

text \<open>On the seed state, with fields that only give a title: level 1 under the main frame.\<close>

theorem createSubFrame_level_witness:
  "frames initialState (currentFrameId initialState) = Some mainFrame \<and>
   find (\<lambda>a. arrow_id a = ''arrow-scientific-to-economic'') (arrows mainFrame)
     = Some (arrows mainFrame ! 1) \<and>
   level mainFrame = 0 \<and> safeInteger (level mainFrame) \<and>
   (\<exists>s' f. createSubFrame initialState ''arrow-scientific-to-economic'' ''f2''
              (noFrameFields\<lparr>pf_title := Some ''detail''\<rparr>) = Inr (s', ''f2'') \<and>
           frames s' ''f2'' = Some f \<and> level f = 1 \<and>
           parentArrowId f = Some ''arrow-scientific-to-economic'')"
proof -
  have l: "level mainFrame = 0" by (simp add: mainFrame_def)
  from createSubFrame_level [OF seed_current seed_find_economic seed_level(2), of "''f2''"
      "noFrameFields\<lparr>pf_title := Some ''detail''\<rparr>"]
  have "\<exists>s' f. createSubFrame initialState ''arrow-scientific-to-economic'' ''f2''
              (noFrameFields\<lparr>pf_title := Some ''detail''\<rparr>) = Inr (s', ''f2'') \<and>
           frames s' ''f2'' = Some f \<and> level f = 1 \<and>
           parentArrowId f = Some ''arrow-scientific-to-economic''"
    by (simp add: noFrameFields_def l)
  with seed_current seed_find_economic l seed_level(2) show ?thesis by (intro conjI)
qed

text \<open>
  With \<open>overridingFields\<close> the new frame has level 7 under a current frame of level 0,
  and no parent arrow.
\<close>

theorem createSubFrame_level_counterexample:
  "map_option level (frames initialState (currentFrameId initialState)) = Some 0 \<and>
   \<not> isl overriddenSubFrame \<and>
   snd (projr overriddenSubFrame) = ''f2'' \<and>
   map_option level (frames (fst (projr overriddenSubFrame)) ''f2'') = Some 7 \<and>
   map_option parentArrowId (frames (fst (projr overriddenSubFrame)) ''f2'') = Some None"
proof -
  have l: "level mainFrame = 0" by (simp add: mainFrame_def)
  from createSubFrame_new_frame [OF seed_current seed_find_economic, of "''f2''" overridingFields]
  obtain s' f where r: "overriddenSubFrame = Inr (s', ''f2'')" "frames s' ''f2'' = Some f"
    "level f = 7" "parentArrowId f = None"
    by (auto simp: overriddenSubFrame_def overridingFields_def noFrameFields_def orElse_def)
  show ?thesis by (simp add: r l seed_current)
qed

subsection \<open>Creating a sub-frame twice\<close>

lemma createSubFrame_fresh:
  assumes cur: "frames s (currentFrameId s) = Some cf"
    and arrow: "find (\<lambda>a. arrow_id a = arrowId) (arrows cf) = Some a"
    and fresh: "frames s newFrameId = None"
  shows "\<exists>s' nf. createSubFrame s arrowId newFrameId frame = Inr (s', newFrameId) \<and>
           frames s' = (frames s)(newFrameId \<mapsto> nf,
             currentFrameId s \<mapsto> cf\<lparr>arrows := (arrows cf)
               [nat (findIndex (\<lambda>a. arrow_id a = arrowId) (arrows cf)) :=
                  a\<lparr>hasSubFrame := True, subFrameId := Some newFrameId\<rparr>]\<rparr>) \<and>
           currentFrameId s' = currentFrameId s \<and> expandedArrowId s' = expandedArrowId s \<and>
           breadcrumbs s' = breadcrumbs s"
proof -
  from cur fresh have ne: "currentFrameId s \<noteq> newFrameId" by auto
  note fi = find_Some_findIndex [OF arrow]
  show ?thesis
    using cur arrow ne fi(1,2)
    by (simp add: createSubFrame_def getFrame_own Let_def) (rule exI, rule refl)
qed

lemma createSubFrame_rebinds:
  assumes cur: "frames s (currentFrameId s) = Some cf"
    and arrow: "find (\<lambda>a. arrow_id a = arrowId) (arrows cf) = Some a"
    and fresh: "frames s newFrameId = None"
  shows "\<exists>s' cf' a'. createSubFrame s arrowId newFrameId frame = Inr (s', newFrameId) \<and>
           dom (frames s') = insert newFrameId (dom (frames s)) \<and>
           frames s' newFrameId \<noteq> None \<and>
           frames s' (currentFrameId s') = Some cf' \<and>
           find (\<lambda>a. arrow_id a = arrowId) (arrows cf') = Some a' \<and>
           hasSubFrame a' \<and> subFrameId a' = Some newFrameId"
proof -
  from cur fresh have ne: "currentFrameId s \<noteq> newFrameId" by auto
  note fi = find_Some_findIndex [OF arrow]
  from createSubFrame_fresh [OF assms, of frame] obtain s' nf where
    r: "createSubFrame s arrowId newFrameId frame = Inr (s', newFrameId)"
    and fr: "frames s' = (frames s)(newFrameId \<mapsto> nf,
             currentFrameId s \<mapsto> cf\<lparr>arrows := (arrows cf)
               [nat (findIndex (\<lambda>a. arrow_id a = arrowId) (arrows cf)) :=
                  a\<lparr>hasSubFrame := True, subFrameId := Some newFrameId\<rparr>]\<rparr>)"
    and c: "currentFrameId s' = currentFrameId s"
    by blast
  let ?a' = "a\<lparr>hasSubFrame := True, subFrameId := Some newFrameId\<rparr>"
  have d: "dom (frames s') = insert newFrameId (dom (frames s))"
    using cur by (auto simp: fr)
  have n: "frames s' newFrameId \<noteq> None"
    using ne by (simp add: fr)
  have f: "find (\<lambda>a. arrow_id a = arrowId)
             ((arrows cf)[nat (findIndex (\<lambda>a. arrow_id a = arrowId) (arrows cf)) := ?a']) = Some ?a'"
    using fi by (intro find_list_update) simp_all
  show ?thesis
    using r d n f by (simp add: fr c)
qed


lemma handleCreateSubFrame_toggle:
  assumes cur: "frames s (currentFrameId s) = Some cf"
    and arrow: "find (\<lambda>a. arrow_id a = arrowId) (arrows cf) = Some a"
    and sub: "truthy (subFrameId a)"
  shows "handleCreateSubFrame s arrowId newFrameId =
           Inr (s\<lparr>frames := (frames s)(currentFrameId s \<mapsto>
                  cf\<lparr>arrows := (arrows cf)
                    [nat (findIndex (\<lambda>a. arrow_id a = arrowId) (arrows cf)) :=
                       a\<lparr>hasSubFrame := True\<rparr>]\<rparr>)\<rparr>)"
proof -
  note fi = find_Some_findIndex [OF arrow]
  have sp: "spreadArrow a (noArrowFields\<lparr>pa_hasSubFrame := Some True\<rparr>) = a\<lparr>hasSubFrame := True\<rparr>"
    by (simp add: spreadArrow_def noArrowFields_def orElse_def)
  show ?thesis
    using cur arrow sub fi(1,2)
    by (simp add: handleCreateSubFrame_def updateArrow_def getFrame_own Let_def sp)
qed

lemma handleCreateSubFrame_enabled:
  assumes cur: "frames s (currentFrameId s) = Some cf"
    and arrow: "find (\<lambda>a. arrow_id a = arrowId) (arrows cf) = Some a"
    and sub: "truthy (subFrameId a)"
    and has: "hasSubFrame a"
  shows "handleCreateSubFrame s arrowId newFrameId = Inr s"
proof -
  note fi = find_Some_findIndex [OF arrow]
  from has have a: "a\<lparr>hasSubFrame := True\<rparr> = a" by simp
  have l: "(arrows cf)[nat (findIndex (\<lambda>a. arrow_id a = arrowId) (arrows cf)) := a] = arrows cf"
    using fi(2) by (metis list_update_id)
  have m: "(frames s)(currentFrameId s \<mapsto> cf) = frames s"
    using cur by (rule map_upd_triv)
  show ?thesis
    by (simp add: handleCreateSubFrame_toggle [OF cur arrow sub] a l m)
qed

lemma handleCreateSubFrame_first:
  assumes cur: "frames s (currentFrameId s) = Some cf"
    and arrow: "find (\<lambda>a. arrow_id a = arrowId) (arrows cf) = Some a"
    and fresh: "frames s id1 = None"
  shows "\<exists>s1 cf1 a1. handleCreateSubFrame s arrowId id1 = Inr s1 \<and>
           frames s1 (currentFrameId s1) = Some cf1 \<and>
           find (\<lambda>a. arrow_id a = arrowId) (arrows cf1) = Some a1 \<and>
           hasSubFrame a1 \<and>
           subFrameId a1 = (if truthy (subFrameId a) then subFrameId a else Some id1) \<and>
           dom (frames s1) = (if truthy (subFrameId a) then dom (frames s) else insert id1 (dom (frames s)))"
proof (cases "truthy (subFrameId a)")
  case True
  note fi = find_Some_findIndex [OF arrow]
  let ?a1 = "a\<lparr>hasSubFrame := True\<rparr>"
  have f: "find (\<lambda>a. arrow_id a = arrowId)
             ((arrows cf)[nat (findIndex (\<lambda>a. arrow_id a = arrowId) (arrows cf)) := ?a1]) = Some ?a1"
    using fi by (intro find_list_update) simp_all
  have d: "dom ((frames s)(currentFrameId s \<mapsto> x)) = dom (frames s)" for x
    using cur by auto
  show ?thesis
    using True f d by (simp add: handleCreateSubFrame_toggle [OF cur arrow True])
next
  case False
  let ?fields = "noFrameFields\<lparr> pf_title := Some
      (case (find (\<lambda>n. node_id n = arrow_source a) (nodes cf),
             find (\<lambda>n. node_id n = arrow_target a) (nodes cf)) of
         (Some sn, Some tn) \<Rightarrow> node_content sn @ titleSeparator @ node_content tn
       | _ \<Rightarrow> ''New Sub-Frame''),
      pf_description := Some (Some ''Arguments supporting this relationship'') \<rparr>"
  have h: "handleCreateSubFrame s arrowId id1 =
             map_sum (\<lambda>e. e) fst (createSubFrame s arrowId id1 ?fields)"
    using cur arrow False by (simp add: handleCreateSubFrame_def getFrame_own Let_def)
  from createSubFrame_rebinds [OF cur arrow fresh, of ?fields] obtain s' cf' a' where
    "createSubFrame s arrowId id1 ?fields = Inr (s', id1)"
    "dom (frames s') = insert id1 (dom (frames s))"
    "frames s' (currentFrameId s') = Some cf'"
    "find (\<lambda>a. arrow_id a = arrowId) (arrows cf') = Some a'"
    "hasSubFrame a'" "subFrameId a' = Some id1"
    by blast
  with False h show ?thesis by simp
qed

text \<open>
  Claim C1, as the code has it. The store's \<^verbatim>\<open>createSubFrame\<close> never toggles: whenever
  \<open>arrowId\<close> resolves in the current frame it stores a frame under the newly generated id,
  sets the arrow's \<open>hasSubFrame\<close> and binds its \<open>subFrameId\<close> to the new id, and returns the
  new id, also when the arrow had a \<open>subFrameId\<close> before. The toggle is the caller's:
  \<^verbatim>\<open>handleCreateSubFrame\<close> of the arrow panel calls \<^verbatim>\<open>updateArrow\<close> with \<open>hasSubFrame = true\<close>
  for an arrow with a non-empty \<open>subFrameId\<close>, which keeps \<open>subFrameId\<close> and the keys of
  \<open>frames\<close>, and calls \<^verbatim>\<open>createSubFrame\<close> otherwise. Used twice on the same arrow, the
  handler binds one \<open>subFrameId\<close>, adds at most one frame, and its second use changes
  nothing. The generated id is new and not empty.
\<close>

theorem handleCreateSubFrame_idempotent:
  assumes cur: "frames s (currentFrameId s) = Some cf"
    and arrow: "find (\<lambda>a. arrow_id a = arrowId) (arrows cf) = Some a"
    and fresh: "frames s id1 = None"
    and nonempty: "id1 \<noteq> []"
  shows "(\<exists>s' cf' a'. createSubFrame s arrowId id1 frame = Inr (s', id1) \<and>
            dom (frames s') = insert id1 (dom (frames s)) \<and>
            frames s' (currentFrameId s') = Some cf' \<and>
            find (\<lambda>a. arrow_id a = arrowId) (arrows cf') = Some a' \<and>
            hasSubFrame a' \<and> subFrameId a' = Some id1) \<and>
         (\<exists>s1 cf1 a1. handleCreateSubFrame s arrowId id1 = Inr s1 \<and>
            frames s1 (currentFrameId s1) = Some cf1 \<and>
            find (\<lambda>a. arrow_id a = arrowId) (arrows cf1) = Some a1 \<and>
            hasSubFrame a1 \<and>
            subFrameId a1 = (if truthy (subFrameId a) then subFrameId a else Some id1) \<and>
            dom (frames s1) = (if truthy (subFrameId a) then dom (frames s) else insert id1 (dom (frames s))) \<and>
            handleCreateSubFrame s1 arrowId id2 = Inr s1)"
proof
  from createSubFrame_rebinds [OF cur arrow fresh, of frame]
  show "\<exists>s' cf' a'. createSubFrame s arrowId id1 frame = Inr (s', id1) \<and>
            dom (frames s') = insert id1 (dom (frames s)) \<and>
            frames s' (currentFrameId s') = Some cf' \<and>
            find (\<lambda>a. arrow_id a = arrowId) (arrows cf') = Some a' \<and>
            hasSubFrame a' \<and> subFrameId a' = Some id1"
    by blast
next
  from handleCreateSubFrame_first [OF cur arrow fresh] obtain s1 cf1 a1 where
    1: "handleCreateSubFrame s arrowId id1 = Inr s1"
    and c1: "frames s1 (currentFrameId s1) = Some cf1"
    and f1: "find (\<lambda>a. arrow_id a = arrowId) (arrows cf1) = Some a1"
    and h1: "hasSubFrame a1"
    and s1: "subFrameId a1 = (if truthy (subFrameId a) then subFrameId a else Some id1)"
    and d1: "dom (frames s1) = (if truthy (subFrameId a) then dom (frames s) else insert id1 (dom (frames s)))"
    by blast
  from s1 nonempty have t1: "truthy (subFrameId a1)"
    by (simp add: truthy_def split: if_splits)
  have 2: "handleCreateSubFrame s1 arrowId id2 = Inr s1"
    by (rule handleCreateSubFrame_enabled [OF c1 f1 t1 h1])
  from 1 c1 f1 h1 s1 d1 2
  show "\<exists>s1 cf1 a1. handleCreateSubFrame s arrowId id1 = Inr s1 \<and>
            frames s1 (currentFrameId s1) = Some cf1 \<and>
            find (\<lambda>a. arrow_id a = arrowId) (arrows cf1) = Some a1 \<and>
            hasSubFrame a1 \<and>
            subFrameId a1 = (if truthy (subFrameId a) then subFrameId a else Some id1) \<and>
            dom (frames s1) = (if truthy (subFrameId a) then dom (frames s) else insert id1 (dom (frames s))) \<and>
            handleCreateSubFrame s1 arrowId id2 = Inr s1"
    by blast
qed

text \<open>
  On the seed state, for an arrow without a sub-frame: the first use of the handler adds
  the frame \<^verbatim>\<open>f2\<close>, the second adds nothing.
\<close>

theorem handleCreateSubFrame_idempotent_witness:
  "frames initialState (currentFrameId initialState) = Some mainFrame \<and>
   find (\<lambda>a. arrow_id a = ''arrow-scientific-to-economic'') (arrows mainFrame)
     = Some (arrows mainFrame ! 1) \<and>
   frames initialState ''f2'' = None \<and> ''f2'' \<noteq> [] \<and>
   (\<exists>s1 cf1 a1. handleCreateSubFrame initialState ''arrow-scientific-to-economic'' ''f2'' = Inr s1 \<and>
      frames s1 (currentFrameId s1) = Some cf1 \<and>
      find (\<lambda>a. arrow_id a = ''arrow-scientific-to-economic'') (arrows cf1) = Some a1 \<and>
      hasSubFrame a1 \<and> subFrameId a1 = Some ''f2'' \<and>
      dom (frames s1) = insert ''f2'' (dom (frames initialState)) \<and>
      handleCreateSubFrame s1 ''arrow-scientific-to-economic'' ''f3'' = Inr s1)"
proof -
  have ne: "''f2'' \<noteq> []" by simp
  have nt: "\<not> truthy (subFrameId (arrows mainFrame ! 1))"
    by (simp add: mainFrame_def truthy_def)
  from handleCreateSubFrame_idempotent [OF seed_current seed_find_economic seed_no_f2 ne,
      of noFrameFields "''f3''"]
  have "\<exists>s1 cf1 a1. handleCreateSubFrame initialState ''arrow-scientific-to-economic'' ''f2'' = Inr s1 \<and>
      frames s1 (currentFrameId s1) = Some cf1 \<and>
      find (\<lambda>a. arrow_id a = ''arrow-scientific-to-economic'') (arrows cf1) = Some a1 \<and>
      hasSubFrame a1 \<and> subFrameId a1 = Some ''f2'' \<and>
      dom (frames s1) = insert ''f2'' (dom (frames initialState)) \<and>
      handleCreateSubFrame s1 ''arrow-scientific-to-economic'' ''f3'' = Inr s1"
    by (simp only: nt if_False)
  with seed_current seed_find_economic seed_no_f2 ne show ?thesis by (intro conjI)
qed

text \<open>
  The seed arrow \<^verbatim>\<open>arrow-scientific-to-carbon\<close> has the sub-frame \<^verbatim>\<open>scientific-carbon\<close>;
  \<^verbatim>\<open>createSubFrame\<close> on it returns the new id \<^verbatim>\<open>f2\<close>, adds a frame under that key and
  rebinds the arrow to it.
\<close>

theorem createSubFrame_not_idempotent_counterexample:
  "map arrow_id (arrows mainFrame)
     = [''arrow-scientific-to-carbon'', ''arrow-scientific-to-economic'',
        ''arrow-economic-to-implementation'', ''arrow-carbon-to-implementation''] \<and>
   map subFrameId (arrows mainFrame) = [Some ''scientific-carbon'', None, None, None] \<and>
   frames initialState (currentFrameId initialState) = Some mainFrame \<and>
   frames initialState ''f2'' = None \<and>
   \<not> isl reboundSubFrame \<and>
   snd (projr reboundSubFrame) = ''f2'' \<and>
   frames (fst (projr reboundSubFrame)) ''f2'' \<noteq> None \<and>
   map subFrameId (arrows (the (frames (fst (projr reboundSubFrame)) ''main'')))
     = [Some ''f2'', None, None, None]"
proof -
  have ids: "map arrow_id (arrows mainFrame)
     = [''arrow-scientific-to-carbon'', ''arrow-scientific-to-economic'',
        ''arrow-economic-to-implementation'', ''arrow-carbon-to-implementation'']"
    by (simp add: mainFrame_def)
  have subs: "map subFrameId (arrows mainFrame) = [Some ''scientific-carbon'', None, None, None]"
    by (simp add: mainFrame_def)
  have i: "nat (findIndex (\<lambda>a. arrow_id a = ''arrow-scientific-to-carbon'') (arrows mainFrame)) = 0"
    by (simp add: mainFrame_def)
  have c: "currentFrameId initialState = ''main''"
    by (simp add: initialState_def)
  from createSubFrame_fresh [OF seed_current seed_find_carbon seed_no_f2, of noFrameFields]
  obtain s' nf where r: "reboundSubFrame = Inr (s', ''f2'')"
    and fr: "frames s' = (frames initialState)(''f2'' \<mapsto> nf,
             ''main'' \<mapsto> mainFrame\<lparr>arrows := (arrows mainFrame)
               [0 := (arrows mainFrame ! 0)\<lparr>hasSubFrame := True, subFrameId := Some ''f2''\<rparr>]\<rparr>)"
    unfolding reboundSubFrame_def i c by blast
  have new: "map subFrameId (arrows (the (frames s' ''main''))) = [Some ''f2'', None, None, None]"
    by (simp add: fr) (simp add: mainFrame_def)
  have k: "frames s' ''f2'' \<noteq> None"
    by (simp add: fr)
  show ?thesis
    by (simp add: r ids subs seed_current seed_no_f2 new k)
qed

subsection \<open>An id among the caller's fields\<close>

lemma createNode_caller_id:
  assumes target: "frames s frameId = Some f"
    and given: "pn_id node = Some cid"
    and differ: "cid \<noteq> newId"
  shows "\<exists>f' n. createNode s frameId newId node = Inr (s\<lparr>frames := (frames s)(frameId \<mapsto> f')\<rparr>, newId) \<and>
           nodes f' = nodes f @ [n] \<and> node_id n = cid \<and>
           (newId \<notin> set (map node_id (nodes f)) \<longrightarrow> newId \<notin> set (map node_id (nodes f'))) \<and>
           (cid \<in> set (map node_id (nodes f)) \<longrightarrow> \<not> distinct (map node_id (nodes f')))"
proof -
  let ?n = "spreadNode \<lparr> node_id = newId, node_type = Proposition, node_content = [],
              node_position = \<lparr> pos_x = 100, pos_y = 100 \<rparr>, node_data = None \<rparr> node"
  have n: "node_id ?n = cid"
    using given by (simp add: spreadNode_def orElse_def)
  have r: "createNode s frameId newId node
      = Inr (s\<lparr>frames := (frames s)(frameId \<mapsto> f\<lparr>nodes := nodes f @ [?n]\<rparr>)\<rparr>, newId)"
    using target by (simp add: createNode_def getFrame_own Let_def)
  show ?thesis
    using r n differ
    by (intro exI [of _ "f\<lparr>nodes := nodes f @ [?n]\<rparr>"] exI [of _ ?n]) auto
qed

lemma createArrow_caller_id:
  assumes target: "frames s frameId = Some f"
    and given: "pa_id arrow = Some cid"
    and differ: "cid \<noteq> newId"
  shows "\<exists>f' e. createArrow s frameId newId arrow = Inr (s\<lparr>frames := (frames s)(frameId \<mapsto> f')\<rparr>, newId) \<and>
           arrows f' = arrows f @ [e] \<and> arrow_id e = cid \<and>
           (newId \<notin> set (map arrow_id (arrows f)) \<longrightarrow> newId \<notin> set (map arrow_id (arrows f'))) \<and>
           (cid \<in> set (map arrow_id (arrows f)) \<longrightarrow> \<not> distinct (map arrow_id (arrows f')))"
proof -
  let ?e = "spreadArrow \<lparr> arrow_id = newId, arrow_source = [], arrow_target = [],
              arrow_type = Logical, hasSubFrame = False, subFrameId = None \<rparr> arrow"
  have e: "arrow_id ?e = cid"
    using given by (simp add: spreadArrow_def orElse_def)
  have r: "createArrow s frameId newId arrow
      = Inr (s\<lparr>frames := (frames s)(frameId \<mapsto> f\<lparr>arrows := arrows f @ [?e]\<rparr>)\<rparr>, newId)"
    using target by (simp add: createArrow_def getFrame_own Let_def)
  show ?thesis
    using r e differ
    by (intro exI [of _ "f\<lparr>arrows := arrows f @ [?e]\<rparr>"] exI [of _ ?e]) auto
qed

lemma createSubFrame_caller_id:
  assumes cur: "frames s (currentFrameId s) = Some cf"
    and found: "find (\<lambda>a. arrow_id a = arrowId) (arrows cf) = Some a"
    and given: "pf_id frame = Some cid"
    and fresh: "frames s newId = None"
  shows "\<exists>s' fr cf' a'. createSubFrame s arrowId newId frame = Inr (s', newId) \<and>
           frames s' newId = Some fr \<and> frame_id fr = cid \<and>
           frames s' (currentFrameId s') = Some cf' \<and>
           find (\<lambda>a. arrow_id a = arrowId) (arrows cf') = Some a' \<and>
           hasSubFrame a' \<and> subFrameId a' = Some newId"
proof -
  from createSubFrame_new_frame [OF cur found, of newId frame] given
  obtain s' fr where r: "createSubFrame s arrowId newId frame = Inr (s', newId)"
    and fr: "frames s' newId = Some fr" "frame_id fr = cid"
    by (auto simp: orElse_def)
  from createSubFrame_rebinds [OF cur found fresh, of frame]
  obtain s'' cf' a' where r': "createSubFrame s arrowId newId frame = Inr (s'', newId)"
    and b: "frames s'' (currentFrameId s'') = Some cf'"
    "find (\<lambda>a. arrow_id a = arrowId) (arrows cf') = Some a'"
    "hasSubFrame a'" "subFrameId a' = Some newId"
    by blast
  from trans [OF r [symmetric] r'] have "s'' = s'" by simp
  with r fr b show ?thesis by blast
qed

text \<open>
  Claim C9, as the code has it. The caller's fields are spread after the generated values,
  so when they include an id \<open>cid\<close>: \<^verbatim>\<open>createNode\<close> and \<^verbatim>\<open>createArrow\<close> on an existing frame
  append an entity whose id is \<open>cid\<close> and return the generated id, which, when it is new
  and another one than \<open>cid\<close>, is the id of no node (arrow) of that frame, and an entity
  with the id \<open>cid\<close> already in the frame leaves the frame with a duplicate id;
  \<^verbatim>\<open>createSubFrame\<close> on an arrow of the current frame stores a frame whose \<open>id\<close> field is \<open>cid\<close>
  under the generated id as key, binds the arrow's \<open>subFrameId\<close> to that key and returns
  it, so there the returned id does resolve in \<open>frames\<close>.
\<close>

theorem caller_id_overrides:
  "(frames s frameId = Some f \<and> pn_id node = Some cid \<and> cid \<noteq> newId \<longrightarrow>
      (\<exists>f' n. createNode s frameId newId node = Inr (s\<lparr>frames := (frames s)(frameId \<mapsto> f')\<rparr>, newId) \<and>
         nodes f' = nodes f @ [n] \<and> node_id n = cid \<and>
         (newId \<notin> set (map node_id (nodes f)) \<longrightarrow> newId \<notin> set (map node_id (nodes f'))) \<and>
         (cid \<in> set (map node_id (nodes f)) \<longrightarrow> \<not> distinct (map node_id (nodes f'))))) \<and>
   (frames s frameId = Some f \<and> pa_id arrow = Some cid \<and> cid \<noteq> newId \<longrightarrow>
      (\<exists>f' e. createArrow s frameId newId arrow = Inr (s\<lparr>frames := (frames s)(frameId \<mapsto> f')\<rparr>, newId) \<and>
         arrows f' = arrows f @ [e] \<and> arrow_id e = cid \<and>
         (newId \<notin> set (map arrow_id (arrows f)) \<longrightarrow> newId \<notin> set (map arrow_id (arrows f'))) \<and>
         (cid \<in> set (map arrow_id (arrows f)) \<longrightarrow> \<not> distinct (map arrow_id (arrows f'))))) \<and>
   (frames s (currentFrameId s) = Some cf \<and> find (\<lambda>a. arrow_id a = arrowId) (arrows cf) = Some a \<and>
    pf_id frame = Some cid \<and> frames s newId = None \<longrightarrow>
      (\<exists>s' fr cf' a'. createSubFrame s arrowId newId frame = Inr (s', newId) \<and>
         frames s' newId = Some fr \<and> frame_id fr = cid \<and>
         frames s' (currentFrameId s') = Some cf' \<and>
         find (\<lambda>a. arrow_id a = arrowId) (arrows cf') = Some a' \<and>
         hasSubFrame a' \<and> subFrameId a' = Some newId))"
  using createNode_caller_id [of s frameId f node cid newId]
    createArrow_caller_id [of s frameId f arrow cid newId]
    createSubFrame_caller_id [of s cf arrowId a frame cid newId]
  by (intro conjI impI) (elim conjE, assumption)+

text \<open>
  \<^verbatim>\<open>createNode\<close> with the caller's id \<^verbatim>\<open>n1\<close> in a store whose current frame has no arrow;
  \<^verbatim>\<open>createArrow\<close> on the seed state with the id of an arrow that the main frame has; and
  \<^verbatim>\<open>createSubFrame\<close> on the seed state with the caller's id \<^verbatim>\<open>carbon-tax\<close>, which stores the
  frame under the returned key \<^verbatim>\<open>f2\<close>.
\<close>

theorem caller_id_overrides_witness:
  "frames emptyFrameState ''f0'' = Some emptyFrame \<and> arrows emptyFrame = [] \<and>
   currentFrameId emptyFrameState = ''f0'' \<and>
   pn_id (noNodeFields\<lparr>pn_id := Some ''n1''\<rparr>) = Some ''n1'' \<and> ''n1'' \<noteq> ''g1'' \<and>
   ''g1'' \<notin> set (map node_id (nodes emptyFrame)) \<and>
   (\<exists>f' n. createNode emptyFrameState ''f0'' ''g1'' (noNodeFields\<lparr>pn_id := Some ''n1''\<rparr>)
              = Inr (emptyFrameState\<lparr>frames := (frames emptyFrameState)(''f0'' \<mapsto> f')\<rparr>, ''g1'') \<and>
      nodes f' = nodes emptyFrame @ [n] \<and> node_id n = ''n1'' \<and>
      (''g1'' \<notin> set (map node_id (nodes emptyFrame)) \<longrightarrow> ''g1'' \<notin> set (map node_id (nodes f'))) \<and>
      (''n1'' \<in> set (map node_id (nodes emptyFrame)) \<longrightarrow> \<not> distinct (map node_id (nodes f')))) \<and>
   frames initialState ''main'' = Some mainFrame \<and>
   pa_id (noArrowFields\<lparr>pa_id := Some ''arrow-carbon-to-implementation''\<rparr>)
     = Some ''arrow-carbon-to-implementation'' \<and>
   ''arrow-carbon-to-implementation'' \<noteq> ''g1'' \<and>
   ''arrow-carbon-to-implementation'' \<in> set (map arrow_id (arrows mainFrame)) \<and>
   (\<exists>f' e. createArrow initialState ''main'' ''g1''
              (noArrowFields\<lparr>pa_id := Some ''arrow-carbon-to-implementation''\<rparr>)
              = Inr (initialState\<lparr>frames := (frames initialState)(''main'' \<mapsto> f')\<rparr>, ''g1'') \<and>
      arrows f' = arrows mainFrame @ [e] \<and> arrow_id e = ''arrow-carbon-to-implementation'' \<and>
      (''g1'' \<notin> set (map arrow_id (arrows mainFrame)) \<longrightarrow> ''g1'' \<notin> set (map arrow_id (arrows f'))) \<and>
      (''arrow-carbon-to-implementation'' \<in> set (map arrow_id (arrows mainFrame)) \<longrightarrow>
         \<not> distinct (map arrow_id (arrows f')))) \<and>
   frames initialState (currentFrameId initialState) = Some mainFrame \<and>
   find (\<lambda>a. arrow_id a = ''arrow-scientific-to-economic'') (arrows mainFrame)
     = Some (arrows mainFrame ! 1) \<and>
   pf_id (noFrameFields\<lparr>pf_id := Some ''carbon-tax''\<rparr>) = Some ''carbon-tax'' \<and>
   frames initialState ''f2'' = None \<and>
   (\<exists>s' fr cf' a'. createSubFrame initialState ''arrow-scientific-to-economic'' ''f2''
               (noFrameFields\<lparr>pf_id := Some ''carbon-tax''\<rparr>) = Inr (s', ''f2'') \<and>
      frames s' ''f2'' = Some fr \<and> frame_id fr = ''carbon-tax'' \<and>
      frames s' (currentFrameId s') = Some cf' \<and>
      find (\<lambda>a. arrow_id a = ''arrow-scientific-to-economic'') (arrows cf') = Some a' \<and>
      hasSubFrame a' \<and> subFrameId a' = Some ''f2'')"
proof -
  have e0: "frames emptyFrameState ''f0'' = Some emptyFrame" "arrows emptyFrame = []"
    "currentFrameId emptyFrameState = ''f0''"
    by (simp_all add: emptyFrameState_def emptyFrame_def)
  have g: "''g1'' \<notin> set (map node_id (nodes emptyFrame))"
    by (simp add: emptyFrame_def)
  have n: "pn_id (noNodeFields\<lparr>pn_id := Some ''n1''\<rparr>) = Some ''n1''" by simp
  have dn: "''n1'' \<noteq> ''g1''" by simp
  have a: "pa_id (noArrowFields\<lparr>pa_id := Some ''arrow-carbon-to-implementation''\<rparr>)
     = Some ''arrow-carbon-to-implementation''" by simp
  have da: "''arrow-carbon-to-implementation'' \<noteq> ''g1''" by simp
  have ma: "''arrow-carbon-to-implementation'' \<in> set (map arrow_id (arrows mainFrame))"
    by (simp add: mainFrame_def)
  have f: "pf_id (noFrameFields\<lparr>pf_id := Some ''carbon-tax''\<rparr>) = Some ''carbon-tax''" by simp
  note 1 = caller_id_overrides [where s = emptyFrameState and frameId = "''f0''" and f = emptyFrame
      and node = "noNodeFields\<lparr>pn_id := Some ''n1''\<rparr>" and cid = "''n1''" and newId = "''g1''",
      THEN conjunct1, rule_format, OF conjI [OF e0(1) conjI [OF n dn]]]
  note 2 = caller_id_overrides [where s = initialState and frameId = "''main''" and f = mainFrame
      and arrow = "noArrowFields\<lparr>pa_id := Some ''arrow-carbon-to-implementation''\<rparr>"
      and cid = "''arrow-carbon-to-implementation''" and newId = "''g1''",
      THEN conjunct2, THEN conjunct1, rule_format, OF conjI [OF seed_main conjI [OF a da]]]
  note 3 = caller_id_overrides [where s = initialState and cf = mainFrame
      and arrowId = "''arrow-scientific-to-economic''" and a = "arrows mainFrame ! 1"
      and frame = "noFrameFields\<lparr>pf_id := Some ''carbon-tax''\<rparr>"
      and cid = "''carbon-tax''" and newId = "''f2''",
      THEN conjunct2, THEN conjunct2, rule_format,
      OF conjI [OF seed_current conjI [OF seed_find_economic conjI [OF f seed_no_f2]]]]
  from e0 n dn g 1 seed_main a da ma 2 seed_current seed_find_economic f seed_no_f2 3
  show ?thesis by (intro conjI)
qed

text \<open>
  After \<^verbatim>\<open>createSubFrame\<close> with the caller's id \<^verbatim>\<open>custom\<close>, the returned id \<^verbatim>\<open>f2\<close> is the key
  of the stored frame and the \<open>subFrameId\<close> of the arrow: it names the new frame in the
  store.
\<close>

theorem returned_frame_id_resolves_counterexample:
  "\<not> isl customIdSubFrame \<and>
   snd (projr customIdSubFrame) = ''f2'' \<and>
   map_option frame_id (frames (fst (projr customIdSubFrame)) ''f2'') = Some ''custom'' \<and>
   map subFrameId (arrows (the (frames (fst (projr customIdSubFrame)) ''main'')))
     = [Some ''scientific-carbon'', Some ''f2'', None, None]"
proof -
  have i: "nat (findIndex (\<lambda>a. arrow_id a = ''arrow-scientific-to-economic'') (arrows mainFrame)) = 1"
    by (simp add: mainFrame_def)
  have c: "currentFrameId initialState = ''main''"
    by (simp add: initialState_def)
  from createSubFrame_fresh [OF seed_current seed_find_economic seed_no_f2,
      of "noFrameFields\<lparr>pf_id := Some ''custom''\<rparr>"]
  obtain s' nf where r: "customIdSubFrame = Inr (s', ''f2'')"
    and fr: "frames s' = (frames initialState)(''f2'' \<mapsto> nf,
             ''main'' \<mapsto> mainFrame\<lparr>arrows := (arrows mainFrame)
               [1 := (arrows mainFrame ! 1)\<lparr>hasSubFrame := True, subFrameId := Some ''f2''\<rparr>]\<rparr>)"
    unfolding customIdSubFrame_def i c by blast
  from createSubFrame_new_frame [OF seed_current seed_find_economic, of "''f2''"
      "noFrameFields\<lparr>pf_id := Some ''custom''\<rparr>"]
  obtain s'' g where r': "customIdSubFrame = Inr (s'', ''f2'')"
    and g: "frames s'' ''f2'' = Some g" "frame_id g = ''custom''"
    unfolding customIdSubFrame_def by (auto simp: orElse_def)
  from trans [OF r [symmetric] r'] have same: "s'' = s'" by simp
  have arrows': "map subFrameId (arrows (the (frames s' ''main'')))
     = [Some ''scientific-carbon'', Some ''f2'', None, None]"
    by (simp add: fr) (simp add: mainFrame_def)
  show ?thesis
    using g by (simp add: r arrows' same)
qed

subsection \<open>Runs of the store: frames and the trail\<close>

lemmas action_defs = expandArrow_def collapseArrow_def navigateToFrame_def navigateBack_def
  createNode_def updateNode_def deleteNode_def createArrow_def updateArrow_def deleteArrow_def
  createFrame_def createSubFrame_def

lemma step_dom_mono:
  assumes "step s op = Inr s'"
  shows "dom (frames s) \<subseteq> dom (frames s')"
proof (cases op)
  case (CreateSubFrame arrowId newId frame)
  with assms show ?thesis
    by (auto simp: createSubFrame_def Let_def split: PropertyValue.splits option.splits if_splits)
qed (use assms in \<open>auto simp: action_defs Let_def getFrame_OwnFrame_iff
      split: PropertyValue.splits option.splits if_splits\<close>)

lemma run_append:
  "run s (ops1 @ ops2) = (case run s ops1 of Inl e \<Rightarrow> Inl e | Inr s1 \<Rightarrow> run s1 ops2)"
  by (induction ops1 arbitrary: s) (auto split: sum.splits)

lemma run_dom_mono: "run s ops = Inr s' \<Longrightarrow> dom (frames s) \<subseteq> dom (frames s')"
proof (induction ops arbitrary: s)
  case Nil
  then show ?case by simp
next
  case (Cons op ops)
  then obtain s1 where 1: "step s op = Inr s1" and 2: "run s1 ops = Inr s'"
    by (auto split: sum.splits)
  from step_dom_mono [OF 1] Cons.IH [OF 2] show ?case by blast
qed

lemma exec_dom_mono: "dom (frames s) \<subseteq> dom (frames (exec s ops))"
proof (induction ops arbitrary: s)
  case Nil
  show ?case by simp
next
  case (Cons op ops)
  have "dom (frames s) \<subseteq> dom (frames (stateAfter s (step s op)))"
    by (cases "step s op") (simp_all add: step_dom_mono)
  with Cons [of "stateAfter s (step s op)"] show ?case by auto
qed

lemma run_exec: "run s ops = Inr s' \<Longrightarrow> exec s ops = s'"
proof (induction ops arbitrary: s)
  case Nil
  then show ?case by simp
next
  case (Cons op ops)
  then show ?case by (cases "step s op") simp_all
qed

lemma step_edit_keeps_trail:
  assumes "step s op = Inr s'"
    and "\<forall>frameId. op \<noteq> NavigateToFrame frameId" and "op \<noteq> NavigateBack"
  shows "breadcrumbs s' = breadcrumbs s \<and> currentFrameId s' = currentFrameId s"
proof (cases op)
  case (CreateSubFrame arrowId newId frame)
  with assms(1) show ?thesis
    by (auto simp: createSubFrame_def Let_def split: PropertyValue.splits option.splits if_splits)
qed (use assms in \<open>auto simp: action_defs Let_def
      split: PropertyValue.splits option.splits if_splits\<close>)

lemma navigateToFrame_ends_at:
  assumes "getFrame (frames t) frameId \<noteq> Undefined"
  shows "currentFrameId (navigateToFrame t frameId) = frameId"
    and "breadcrumbs (navigateToFrame t frameId) \<noteq> []"
    and "last (breadcrumbs (navigateToFrame t frameId)) = frameId"
  by (simp_all add: navigateToFrame_passes [OF assms])

lemma navigateToFrame_trail:
  assumes "trailEndsAtCurrent s"
  shows "trailEndsAtCurrent (navigateToFrame s frameId)"
proof (cases "getFrame (frames s) frameId = Undefined")
  case True
  with assms show ?thesis by (simp add: navigateToFrame_def)
next
  case False
  from navigateToFrame_ends_at [OF False] show ?thesis
    by (simp add: trailEndsAtCurrent_def)
qed

lemma nth_second_last:
  assumes "1 < length xs"
  shows "xs ! (length xs - 2) = last (butlast xs)" and "butlast xs \<noteq> []"
proof -
  from assms show ne: "butlast xs \<noteq> []"
    by (cases xs rule: rev_cases) auto
  have "last (butlast xs) = butlast xs ! (length (butlast xs) - 1)"
    using ne by (rule last_conv_nth)
  also have "\<dots> = xs ! (length xs - 2)"
    using assms by (simp add: nth_butlast numeral_2_eq_2)
  finally show "xs ! (length xs - 2) = last (butlast xs)" ..
qed

lemma navigateBack_ends_at:
  assumes "1 < length (breadcrumbs t)"
  shows "breadcrumbs (navigateBack t) \<noteq> []"
    and "last (breadcrumbs (navigateBack t)) = currentFrameId (navigateBack t)"
  using assms nth_second_last [OF assms] by (simp_all add: navigateBack_def)

lemma navigateBack_trail:
  assumes "trailEndsAtCurrent s"
  shows "trailEndsAtCurrent (navigateBack s)"
proof (cases "1 < length (breadcrumbs s)")
  case True
  from navigateBack_ends_at [OF True] show ?thesis
    by (simp add: trailEndsAtCurrent_def)
next
  case False
  with assms show ?thesis by (simp add: navigateBack_def)
qed

lemma step_trail:
  assumes "trailEndsAtCurrent s"
  shows "trailEndsAtCurrent (stateAfter s (step s op))"
proof (cases "step s op")
  case (Inl e)
  with assms show ?thesis by simp
next
  case (Inr s')
  show ?thesis
  proof (cases "(\<exists>frameId. op = NavigateToFrame frameId) \<or> op = NavigateBack")
    case True
    with navigateToFrame_trail [OF assms] navigateBack_trail [OF assms]
    show ?thesis by auto
  next
    case False
    with step_edit_keeps_trail [OF Inr] have
      "breadcrumbs s' = breadcrumbs s" "currentFrameId s' = currentFrameId s"
      by simp_all
    with assms Inr show ?thesis
      by (simp add: trailEndsAtCurrent_def)
  qed
qed

lemma exec_trail: "trailEndsAtCurrent s \<Longrightarrow> trailEndsAtCurrent (exec s ops)"
proof (induction ops arbitrary: s)
  case Nil
  then show ?case by simp
next
  case (Cons op ops)
  from Cons.IH [OF step_trail [OF Cons.prems]] show ?case by simp
qed

lemma seed_trail: "trailEndsAtCurrent initialState"
  by (simp add: trailEndsAtCurrent_def seed_fields)

lemma drilled_exec:
  "exec initialState [NavigateToFrame ''scientific-carbon'', NavigateToFrame ''climate-models-detail'',
     NavigateBack] = drilledState"
proof -
  have 1: "navigateToFrame initialState ''scientific-carbon'' = drilledState"
    by (simp add: navigateToFrame_def getFrame_def seed_frames seed_fields includesElem_def
        drilledState_def)
  have f: "frames drilledState = frames initialState"
    by (simp add: drilledState_def)
  have 2: "navigateToFrame drilledState ''climate-models-detail''
     = drilledState\<lparr> currentFrameId := ''climate-models-detail'',
         breadcrumbs := [''main'', ''scientific-carbon'', ''climate-models-detail''] \<rparr>"
    by (simp add: navigateToFrame_def getFrame_def f seed_frames includesElem_def)
      (simp add: drilledState_def seed_fields)
  have 3: "navigateBack (drilledState\<lparr> currentFrameId := ''climate-models-detail'',
         breadcrumbs := [''main'', ''scientific-carbon'', ''climate-models-detail''] \<rparr>) = drilledState"
    by (simp add: navigateBack_def) (simp add: drilledState_def seed_fields)
  show ?thesis by (simp add: 1 2 3)
qed

lemma astray_navigation:
  "navigateToFrame initialState ''constructor'' = astrayState"
  by (simp add: navigateToFrame_def getFrame_def seed_no_constructor inherited_constructor
      includesElem_def seed_fields astrayState_def)

lemma astray_fields:
  "frames astrayState = frames initialState" "currentFrameId astrayState = ''constructor''"
  "breadcrumbs astrayState = [''main'', ''constructor'']"
  by (simp_all add: astrayState_def)

lemma astray_expand: "expandArrow astrayState arrowId = Inl TypeError"
  by (simp add: expandArrow_def astray_fields getFrame_def seed_no_constructor inherited_constructor)

text \<open>
  Claim C8. From the initial state, after every sequence of store operations, those that
  throw included, the trail is not empty and its last entry is the current frame; each
  operation keeps that from any state in which it holds. In any state \<open>t\<close>, a navigation
  to an existing frame and a \<^verbatim>\<open>navigateBack\<close> with more than one entry in the trail end in
  a state whose trail ends with the current frame; \<^verbatim>\<open>navigateBack\<close> changes nothing when
  the trail has at most one entry, and otherwise makes the second-to-last entry the
  current frame, clears \<open>expandedArrowId\<close> and drops the last entry.
\<close>

theorem breadcrumbs_invariant:
  "breadcrumbs (exec initialState ops) \<noteq> [] \<and>
   last (breadcrumbs (exec initialState ops)) = currentFrameId (exec initialState ops) \<and>
   (run initialState ops = Inr s \<longrightarrow> exec initialState ops = s) \<and>
   (trailEndsAtCurrent t \<longrightarrow> trailEndsAtCurrent (stateAfter t (step t op))) \<and>
   (frames t frameId \<noteq> None \<longrightarrow>
      currentFrameId (navigateToFrame t frameId) = frameId \<and>
      breadcrumbs (navigateToFrame t frameId) \<noteq> [] \<and>
      last (breadcrumbs (navigateToFrame t frameId)) = currentFrameId (navigateToFrame t frameId)) \<and>
   (1 < length (breadcrumbs t) \<longrightarrow>
      breadcrumbs (navigateBack t) \<noteq> [] \<and>
      last (breadcrumbs (navigateBack t)) = currentFrameId (navigateBack t)) \<and>
   (length (breadcrumbs t) \<le> 1 \<longrightarrow> navigateBack t = t) \<and>
   (1 < length (breadcrumbs t) \<longrightarrow>
      navigateBack t = t\<lparr> currentFrameId := breadcrumbs t ! (length (breadcrumbs t) - 2),
                           expandedArrowId := None,
                           breadcrumbs := butlast (breadcrumbs t) \<rparr>)"
proof (intro conjI impI)
  from exec_trail [OF seed_trail, of ops]
  show "breadcrumbs (exec initialState ops) \<noteq> []"
    and "last (breadcrumbs (exec initialState ops)) = currentFrameId (exec initialState ops)"
    by (simp_all add: trailEndsAtCurrent_def)
next
  assume "run initialState ops = Inr s"
  then show "exec initialState ops = s" by (rule run_exec)
next
  assume "trailEndsAtCurrent t"
  then show "trailEndsAtCurrent (stateAfter t (step t op))" by (rule step_trail)
next
  assume "frames t frameId \<noteq> None"
  then have p: "getFrame (frames t) frameId \<noteq> Undefined"
    by (simp add: getFrame_Undefined_iff)
  from navigateToFrame_ends_at [OF p]
  show "currentFrameId (navigateToFrame t frameId) = frameId"
    and "breadcrumbs (navigateToFrame t frameId) \<noteq> []"
    and "last (breadcrumbs (navigateToFrame t frameId)) = currentFrameId (navigateToFrame t frameId)"
    by simp_all
next
  assume l: "1 < length (breadcrumbs t)"
  from navigateBack_ends_at [OF l]
  show "breadcrumbs (navigateBack t) \<noteq> []"
    and "last (breadcrumbs (navigateBack t)) = currentFrameId (navigateBack t)"
    by simp_all
  from l show "navigateBack t = t\<lparr> currentFrameId := breadcrumbs t ! (length (breadcrumbs t) - 2),
                           expandedArrowId := None,
                           breadcrumbs := butlast (breadcrumbs t) \<rparr>"
    by (simp add: navigateBack_def)
next
  assume "length (breadcrumbs t) \<le> 1"
  then show "navigateBack t = t" by (simp add: navigateBack_def)
qed

text \<open>
  Two navigations forward and one back from the seed state end in \<open>drilledState\<close>, and one
  more \<^verbatim>\<open>navigateBack\<close> gives the initial state, where \<^verbatim>\<open>navigateBack\<close> changes nothing.
  After a navigation to \<^verbatim>\<open>constructor\<close> the next \<^verbatim>\<open>expandArrow\<close> throws, and the trail still
  ends with the current frame.
\<close>

theorem breadcrumbs_invariant_witness:
  "exec initialState [NavigateToFrame ''scientific-carbon'', NavigateToFrame ''climate-models-detail'',
     NavigateBack] = drilledState \<and>
   breadcrumbs drilledState = [''main'', ''scientific-carbon''] \<and>
   last (breadcrumbs drilledState) = currentFrameId drilledState \<and>
   frames drilledState ''main'' \<noteq> None \<and>
   last (breadcrumbs (navigateToFrame drilledState ''main'')) = ''main'' \<and>
   1 < length (breadcrumbs drilledState) \<and>
   navigateBack drilledState = initialState \<and>
   length (breadcrumbs initialState) \<le> 1 \<and>
   navigateBack initialState = initialState \<and>
   run initialState [NavigateToFrame ''constructor'', ExpandArrow ''arrow-scientific-to-carbon'']
     = Inl TypeError \<and>
   exec initialState [NavigateToFrame ''constructor'', ExpandArrow ''arrow-scientific-to-carbon'']
     = astrayState \<and>
   trailEndsAtCurrent initialState \<and>
   trailEndsAtCurrent astrayState \<and>
   run initialState [NavigateToFrame ''constructor''] = Inr astrayState"
proof -
  note r = drilled_exec
  have b: "breadcrumbs drilledState = [''main'', ''scientific-carbon'']"
    by (simp add: drilledState_def)
  have m: "frames drilledState ''main'' \<noteq> None"
    by (simp add: drilledState_def seed_frames)
  have l: "1 < length (breadcrumbs drilledState)" "length (breadcrumbs initialState) \<le> 1"
    by (simp_all add: b seed_fields)
  have e: "drilledState\<lparr> currentFrameId := ''main'', expandedArrowId := None,
             breadcrumbs := [''main''] \<rparr> = initialState"
    by (simp add: drilledState_def initialState_def)
  note t = breadcrumbs_invariant [of "[NavigateToFrame ''scientific-carbon'',
      NavigateToFrame ''climate-models-detail'', NavigateBack]" _ drilledState _ "''main''"]
  from t have lst: "last (breadcrumbs drilledState) = currentFrameId drilledState"
    unfolding r by (rule conjunct2 [THEN conjunct1])
  from t m have nav: "last (breadcrumbs (navigateToFrame drilledState ''main'')) = ''main''"
    by simp
  from t l(1) have nb: "navigateBack drilledState = initialState"
    by (simp add: b e)
  note t0 = breadcrumbs_invariant [of "[NavigateToFrame ''constructor'',
      ExpandArrow ''arrow-scientific-to-carbon'']" astrayState initialState
      "NavigateToFrame ''constructor''"]
  from t0 l(2) have nb0: "navigateBack initialState = initialState"
    by simp
  have r1: "run initialState [NavigateToFrame ''constructor''] = Inr astrayState"
    by (simp add: astray_navigation)
  have r2: "run initialState [NavigateToFrame ''constructor'', ExpandArrow ''arrow-scientific-to-carbon'']
     = Inl TypeError"
    by (simp add: astray_navigation astray_expand)
  have x2: "exec initialState [NavigateToFrame ''constructor'', ExpandArrow ''arrow-scientific-to-carbon'']
     = astrayState"
    by (simp add: astray_navigation astray_expand)
  from t0 seed_trail have tr: "trailEndsAtCurrent astrayState"
    by (simp add: astray_navigation)
  from r b lst m nav l nb nb0 r2 x2 seed_trail tr r1 show ?thesis by (intro conjI)
qed

text \<open>
  No action removes a key of \<open>frames\<close>: the keys present before a sequence of calls are
  present after it.
\<close>

lemma frames_only_grow:
  "dom (frames s) \<subseteq> dom (frames (stateAfter s (step s op)))"
  "dom (frames s) \<subseteq> dom (frames (exec s ops))"
  "run s ops = Inr s' \<Longrightarrow> dom (frames s) \<subseteq> dom (frames s')"
proof -
  show "dom (frames s) \<subseteq> dom (frames (stateAfter s (step s op)))"
    by (cases "step s op") (simp_all add: step_dom_mono)
  show "dom (frames s) \<subseteq> dom (frames (exec s ops))"
    by (rule exec_dom_mono)
  show "dom (frames s) \<subseteq> dom (frames s')" if "run s ops = Inr s'"
    using run_exec [OF that] exec_dom_mono [of s ops] by simp
qed

text \<open>
  Claim C10, where the code departs from it. The keys of \<open>frames\<close> only grow, but the
  current frame and the trail need not be among them: a name that is not a key of \<open>frames\<close>
  and is inherited from \<^verbatim>\<open>Object.prototype\<close> passes the guard of \<^verbatim>\<open>navigateToFrame\<close>, and after
  that call the current frame and the last entry of the trail are that name, no key of
  \<open>frames\<close>, and \<^verbatim>\<open>expandArrow\<close> throws.
\<close>

theorem trail_leaves_frames:
  assumes "frames s frameId = None" and "inheritedName frameId"
  shows "\<exists>s'. run s [NavigateToFrame frameId] = Inr s' \<and>
           frames s' = frames s \<and>
           currentFrameId s' = frameId \<and> currentFrameId s' \<notin> dom (frames s') \<and>
           last (breadcrumbs s') = frameId \<and> frameId \<in> set (breadcrumbs s') \<and>
           \<not> set (breadcrumbs s') \<subseteq> dom (frames s') \<and>
           expandArrow s' arrowId = Inl TypeError"
proof -
  from assms have p: "getFrame (frames s) frameId \<noteq> Undefined"
    by (simp add: getFrame_inherited)
  let ?s' = "navigateToFrame s frameId"
  note e = navigateToFrame_ends_at [OF p]
  have f: "frames ?s' = frames s"
    by (simp add: navigateToFrame_passes [OF p])
  from e(2,3) have m: "frameId \<in> set (breadcrumbs ?s')"
    by (metis last_in_set)
  from assms(1) f have nk: "frameId \<notin> dom (frames ?s')" by (simp add: domIff)
  with m have ns: "\<not> set (breadcrumbs ?s') \<subseteq> dom (frames ?s')" by blast
  have x: "expandArrow ?s' arrowId = Inl TypeError"
    using assms by (simp add: expandArrow_def e(1) f getFrame_inherited)
  have "run s [NavigateToFrame frameId] = Inr ?s'" by simp
  with f e(1,3) nk m ns x show ?thesis by simp
qed

text \<open>
  On the seed state: after \<^verbatim>\<open>navigateToFrame\<close> with \<^verbatim>\<open>constructor\<close> the current frame is no
  key of \<open>frames\<close>.
\<close>

theorem trail_leaves_frames_witness:
  "frames initialState ''constructor'' = None \<and> inheritedName ''constructor'' \<and>
   run initialState [NavigateToFrame ''constructor''] = Inr astrayState \<and>
   currentFrameId astrayState = ''constructor'' \<and>
   frames astrayState ''constructor'' = None \<and>
   currentFrameId astrayState \<notin> dom (frames astrayState) \<and>
   \<not> set (breadcrumbs astrayState) \<subseteq> dom (frames astrayState) \<and>
   expandArrow astrayState ''arrow-scientific-to-carbon'' = Inl TypeError"
proof -
  have r: "run initialState [NavigateToFrame ''constructor''] = Inr astrayState"
    by (simp add: astray_navigation)
  from trail_leaves_frames [OF seed_no_constructor inherited_constructor,
      of "''arrow-scientific-to-carbon''"]
  obtain s' where r': "run initialState [NavigateToFrame ''constructor''] = Inr s'"
    and c': "currentFrameId s' = ''constructor''"
    and d': "currentFrameId s' \<notin> dom (frames s')"
    and b': "\<not> set (breadcrumbs s') \<subseteq> dom (frames s')"
    and x': "expandArrow s' ''arrow-scientific-to-carbon'' = Inl TypeError"
    by (elim exE conjE)
  from trans [OF r [symmetric] r'] have s': "s' = astrayState" by simp
  note c = c' [unfolded s'] and d = d' [unfolded s'] and b = b' [unfolded s']
    and x = x' [unfolded s']
  have n: "frames astrayState ''constructor'' = None"
    by (simp add: astray_fields seed_no_constructor)
  from seed_no_constructor inherited_constructor r c n d b x show ?thesis by (intro conjI)
qed

subsection \<open>Referential integrity\<close>

lemma ran_upd_cases: "g \<in> ran (m(k \<mapsto> v)) \<Longrightarrow> g = v \<or> g \<in> ran m"
  by (auto simp: ran_def split: if_splits)

lemma integrity_upd:
  assumes "referentialIntegrity s" and "frameIntegrity f'"
  shows "referentialIntegrity (s\<lparr>frames := (frames s)(k \<mapsto> f')\<rparr>)"
  using assms by (auto simp: referentialIntegrity_def dest: ran_upd_cases)

lemma integrity_frame:
  "referentialIntegrity s \<Longrightarrow> frames s k = Some f \<Longrightarrow> frameIntegrity f"
  by (auto simp: referentialIntegrity_def ran_def)

lemma frameIntegrity_iff:
  "frameIntegrity f \<longleftrightarrow>
     (\<forall>a \<in> set (arrows f). arrow_source a \<in> node_id ` set (nodes f) \<and> arrow_target a \<in> node_id ` set (nodes f))"
  by (simp add: frameIntegrity_def nodeIds_def list_all_iff)

lemma integrity_add_node:
  "frameIntegrity f \<Longrightarrow> frameIntegrity (f\<lparr>nodes := nodes f @ [n]\<rparr>)"
  by (auto simp: frameIntegrity_iff)

lemma integrity_same_ids:
  assumes "frameIntegrity f" and "map node_id ns = map node_id (nodes f)"
  shows "frameIntegrity (f\<lparr>nodes := ns\<rparr>)"
proof -
  from assms(2) have "node_id ` set ns = node_id ` set (nodes f)"
    by (metis set_map)
  with assms(1) show ?thesis by (simp add: frameIntegrity_iff)
qed

lemma integrity_delete_node:
  "frameIntegrity f \<Longrightarrow>
   frameIntegrity (f\<lparr> nodes := filter (\<lambda>n. node_id n \<noteq> nodeId) (nodes f),
       arrows := filter (\<lambda>a. arrow_source a \<noteq> nodeId \<and> arrow_target a \<noteq> nodeId) (arrows f) \<rparr>)"
  by (auto simp: frameIntegrity_iff)

lemma integrity_add_arrow:
  "frameIntegrity f \<Longrightarrow> arrow_source a \<in> nodeIds f \<Longrightarrow> arrow_target a \<in> nodeIds f \<Longrightarrow>
   frameIntegrity (f\<lparr>arrows := arrows f @ [a]\<rparr>)"
  by (auto simp: frameIntegrity_iff nodeIds_def)

lemma integrity_update_arrow:
  assumes "frameIntegrity f" and "arrow_source a \<in> nodeIds f" and "arrow_target a \<in> nodeIds f"
  shows "frameIntegrity (f\<lparr>arrows := (arrows f)[i := a]\<rparr>)"
proof -
  have "set ((arrows f)[i := a]) \<subseteq> insert a (set (arrows f))"
    by (rule set_update_subset_insert)
  with assms show ?thesis
    by (auto simp: frameIntegrity_iff nodeIds_def)
qed

lemma integrity_delete_arrow:
  "frameIntegrity f \<Longrightarrow> frameIntegrity (f\<lparr>arrows := filter P (arrows f)\<rparr>)"
  by (auto simp: frameIntegrity_iff)

lemma integrity_endpoints:
  "frameIntegrity f \<Longrightarrow> a \<in> set (arrows f) \<Longrightarrow> arrow_source a \<in> nodeIds f \<and> arrow_target a \<in> nodeIds f"
  by (auto simp: frameIntegrity_iff nodeIds_def)

lemma createNode_integrity:
  assumes "referentialIntegrity s" and "createNode s frameId newId node = Inr (s', ret)"
  shows "referentialIntegrity s'"
  using assms
  by (auto simp: createNode_def Let_def getFrame_OwnFrame_iff split: PropertyValue.splits
      intro!: integrity_upd integrity_add_node dest: integrity_frame)

lemma updateNode_integrity:
  assumes ri: "referentialIntegrity s"
    and same: "pn_id updates = None \<or> pn_id updates = Some nodeId"
    and r: "updateNode s frameId nodeId updates = Inr s'"
  shows "referentialIntegrity s'"
proof (cases "frames s frameId")
  case None
  with ri r show ?thesis
    by (auto simp: updateNode_def getFrame_def split: if_splits)
next
  case (Some fr)
  let ?i = "findIndex (\<lambda>n. node_id n = nodeId) (nodes fr)"
  show ?thesis
  proof (cases "?i = - 1")
    case True
    with ri r Some show ?thesis by (simp add: updateNode_def getFrame_own)
  next
    case False
    note nth = findIndex_nth [OF False]
    let ?n = "spreadNode (nodes fr ! nat ?i) updates"
    from same nth(2) have "node_id ?n = node_id (nodes fr ! nat ?i)"
      by (auto simp: spreadNode_def orElse_def)
    then have "map node_id ((nodes fr)[nat ?i := ?n]) = map node_id (nodes fr)"
      by (simp add: map_update list_update_same_conv nth(1))
    from integrity_same_ids [OF integrity_frame [OF ri Some] this]
    have "frameIntegrity (fr\<lparr>nodes := (nodes fr)[nat ?i := ?n]\<rparr>)" .
    from integrity_upd [OF ri this] r Some False show ?thesis
      by (auto simp: updateNode_def getFrame_own Let_def)
  qed
qed

lemma deleteNode_integrity:
  assumes "referentialIntegrity s" and "deleteNode s frameId nodeId = Inr s'"
  shows "referentialIntegrity s'"
  using assms
  by (auto simp: deleteNode_def getFrame_OwnFrame_iff split: PropertyValue.splits
      intro!: integrity_upd integrity_delete_node dest: integrity_frame)

lemma createArrow_integrity:
  assumes ri: "referentialIntegrity s"
    and ok: "honoursContract s (CreateArrow frameId newId arrow)"
    and r: "createArrow s frameId newId arrow = Inr (s', ret)"
  shows "referentialIntegrity s'"
proof (cases "frames s frameId")
  case None
  with ri r show ?thesis
    by (auto simp: createArrow_def getFrame_def split: if_splits)
next
  case (Some fr)
  let ?a = "spreadArrow \<lparr> arrow_id = newId, arrow_source = [], arrow_target = [],
              arrow_type = Logical, hasSubFrame = False, subFrameId = None \<rparr> arrow"
  from ok Some have "arrow_source ?a \<in> nodeIds fr" "arrow_target ?a \<in> nodeIds fr"
    by (simp_all add: spreadArrow_def)
  from integrity_add_arrow [OF integrity_frame [OF ri Some] this]
  have "frameIntegrity (fr\<lparr>arrows := arrows fr @ [?a]\<rparr>)" .
  from integrity_upd [OF ri this] r Some show ?thesis
    by (auto simp: createArrow_def getFrame_own Let_def)
qed

lemma updateArrow_integrity:
  assumes ri: "referentialIntegrity s"
    and ok: "honoursContract s (UpdateArrow frameId arrowId updates)"
    and r: "updateArrow s frameId arrowId updates = Inr s'"
  shows "referentialIntegrity s'"
proof (cases "frames s frameId")
  case None
  with ri r show ?thesis
    by (auto simp: updateArrow_def getFrame_def split: if_splits)
next
  case (Some fr)
  let ?i = "findIndex (\<lambda>a. arrow_id a = arrowId) (arrows fr)"
  show ?thesis
  proof (cases "?i = - 1")
    case True
    with ri r Some show ?thesis by (simp add: updateArrow_def getFrame_own)
  next
    case False
    note nth = findIndex_nth [OF False]
    note fi = integrity_frame [OF ri Some]
    from nth(1) have "arrows fr ! nat ?i \<in> set (arrows fr)" by simp
    note old = integrity_endpoints [OF fi this]
    let ?a = "spreadArrow (arrows fr ! nat ?i) updates"
    from ok Some old have "arrow_source ?a \<in> nodeIds fr" "arrow_target ?a \<in> nodeIds fr"
      by (auto simp: spreadArrow_def orElse_def split: option.splits)
    from integrity_update_arrow [OF fi this]
    have "frameIntegrity (fr\<lparr>arrows := (arrows fr)[nat ?i := ?a]\<rparr>)" .
    from integrity_upd [OF ri this] r Some False show ?thesis
      by (auto simp: updateArrow_def getFrame_own Let_def)
  qed
qed

lemma deleteArrow_integrity:
  assumes "referentialIntegrity s" and "deleteArrow s frameId arrowId = Inr s'"
  shows "referentialIntegrity s'"
  using assms
  by (auto simp: deleteArrow_def getFrame_OwnFrame_iff split: PropertyValue.splits
      intro!: integrity_upd integrity_delete_arrow dest: integrity_frame)

lemma spreadFrame_integrity:
  assumes "fieldsIntegrity frame" and "nodes d = []" and "arrows d = []"
  shows "frameIntegrity (spreadFrame d frame)"
  using assms
  by (cases "pf_arrows frame")
    (simp_all add: fieldsIntegrity_def frameIntegrity_def nodeIds_def spreadFrame_def orElse_def)

lemma createFrame_integrity:
  assumes ri: "referentialIntegrity s" and ok: "fieldsIntegrity frame"
  shows "referentialIntegrity (fst (createFrame s newId frame))"
proof -
  let ?f = "spreadFrame \<lparr> frame_id = newId, frame_title = ''New Frame'', frame_description = Some [],
              nodes = [], arrows = [], parentArrowId = None, level = 0 \<rparr> frame"
  have "frameIntegrity ?f" by (rule spreadFrame_integrity [OF ok]) simp_all
  from integrity_upd [OF ri this] show ?thesis
    by (simp add: createFrame_def Let_def)
qed

lemma createSubFrame_integrity:
  assumes ri: "referentialIntegrity s" and ok: "fieldsIntegrity frame"
    and r: "createSubFrame s arrowId newId frame = Inr (s', ret)"
  shows "referentialIntegrity s'"
proof -
  from r obtain cf where cf: "frames s (currentFrameId s) = Some cf"
    by (auto simp: createSubFrame_def getFrame_OwnFrame_iff split: PropertyValue.splits)
  show ?thesis
  proof (cases "find (\<lambda>a. arrow_id a = arrowId) (arrows cf)")
    case None
    with r cf ri show ?thesis by (simp add: createSubFrame_def getFrame_own)
  next
    case (Some a)
    let ?nf = "spreadFrame \<lparr> frame_id = newId, frame_title = ''New Sub-Frame'',
                  frame_description = Some [], nodes = [], arrows = [],
                  parentArrowId = Some arrowId, level = plusOne (level cf) \<rparr> frame"
    let ?s1 = "s\<lparr>frames := (frames s)(newId \<mapsto> ?nf)\<rparr>"
    let ?f = "if currentFrameId s = newId then ?nf else cf"
    let ?i = "findIndex (\<lambda>a. arrow_id a = arrowId) (arrows ?f)"
    let ?a = "(arrows ?f ! nat ?i)\<lparr>hasSubFrame := True, subFrameId := Some newId\<rparr>"
    have "frameIntegrity ?nf" by (rule spreadFrame_integrity [OF ok]) simp_all
    from integrity_upd [OF ri this] have ri1: "referentialIntegrity ?s1" .
    have f: "frames ?s1 (currentFrameId s) = Some ?f"
      using cf by simp
    show ?thesis
    proof (cases "?i = - 1")
      case True
      with r cf Some have "s' = ?s1"
        by (auto simp: createSubFrame_def getFrame_own Let_def split: if_splits)
      with ri1 show ?thesis by simp
    next
      case False
      note nth = findIndex_nth [OF False]
      note fi = integrity_frame [OF ri1 f]
      from nth(1) have "arrows ?f ! nat ?i \<in> set (arrows ?f)" by simp
      note old = integrity_endpoints [OF fi this]
      from old have "arrow_source ?a \<in> nodeIds ?f" "arrow_target ?a \<in> nodeIds ?f"
        by simp_all
      from integrity_update_arrow [OF fi this]
      have "frameIntegrity (?f\<lparr>arrows := (arrows ?f)[nat ?i := ?a]\<rparr>)" .
      from integrity_upd [OF ri1 this, of "currentFrameId s"]
      have "referentialIntegrity (s\<lparr>frames := ((frames s)(newId \<mapsto> ?nf))(currentFrameId s \<mapsto>
              ?f\<lparr>arrows := (arrows ?f)[nat ?i := ?a]\<rparr>)\<rparr>)"
        by simp
      moreover from r cf Some False
      have "s' = s\<lparr>frames := ((frames s)(newId \<mapsto> ?nf))(currentFrameId s \<mapsto>
              ?f\<lparr>arrows := (arrows ?f)[nat ?i := ?a]\<rparr>)\<rparr>"
        by (auto simp: createSubFrame_def getFrame_own Let_def split: if_splits)
      ultimately show ?thesis by simp
    qed
  qed
qed

lemma navigation_integrity:
  "referentialIntegrity (collapseArrow s) = referentialIntegrity s"
  "referentialIntegrity (navigateToFrame s frameId) = referentialIntegrity s"
  "referentialIntegrity (navigateBack s) = referentialIntegrity s"
  "expandArrow s arrowId = Inr s' \<Longrightarrow> referentialIntegrity s' = referentialIntegrity s"
  by (auto simp: collapseArrow_def navigateToFrame_def navigateBack_def expandArrow_def
      referentialIntegrity_def split: PropertyValue.splits option.splits if_splits)

lemma step_integrity:
  assumes "referentialIntegrity s" and "honoursContract s op" and "step s op = Inr s'"
  shows "referentialIntegrity s'"
proof (cases op)
  case (ExpandArrow arrowId)
  with assms navigation_integrity(4) [of s arrowId s'] show ?thesis by simp
next
  case CollapseArrow
  with assms show ?thesis by (auto simp: navigation_integrity)
next
  case (NavigateToFrame frameId)
  with assms show ?thesis by (auto simp: navigation_integrity)
next
  case NavigateBack
  with assms show ?thesis by (auto simp: navigation_integrity)
next
  case (CreateNode frameId newId node)
  with assms(3) obtain ret where "createNode s frameId newId node = Inr (s', ret)"
    by (cases "createNode s frameId newId node") auto
  from createNode_integrity [OF assms(1) this] show ?thesis .
next
  case (UpdateNode frameId nodeId updates)
  with assms updateNode_integrity [of s updates nodeId frameId s'] show ?thesis by auto
next
  case (DeleteNode frameId nodeId)
  with assms deleteNode_integrity [of s frameId nodeId s'] show ?thesis by auto
next
  case (CreateArrow frameId newId arrow)
  with assms(3) obtain ret where "createArrow s frameId newId arrow = Inr (s', ret)"
    by (cases "createArrow s frameId newId arrow") auto
  from createArrow_integrity [OF assms(1) _ this] assms(2) CreateArrow show ?thesis by simp
next
  case (UpdateArrow frameId arrowId updates)
  with assms updateArrow_integrity [of s frameId arrowId updates s'] show ?thesis by auto
next
  case (DeleteArrow frameId arrowId)
  with assms deleteArrow_integrity [of s frameId arrowId s'] show ?thesis by auto
next
  case (CreateFrame newId frame)
  with assms createFrame_integrity [of s frame newId] show ?thesis by auto
next
  case (CreateSubFrame arrowId newId frame)
  with assms obtain ret where "createSubFrame s arrowId newId frame = Inr (s', ret)"
    by (cases "createSubFrame s arrowId newId frame") auto
  from createSubFrame_integrity [OF assms(1) _ this] assms(2) CreateSubFrame
  show ?thesis by simp
qed

lemma run_integrity:
  assumes "referentialIntegrity s" and "contractRun s ops" and "run s ops = Inr s'"
  shows "referentialIntegrity s'"
  using assms
proof (induction ops arbitrary: s)
  case Nil
  then show ?case by simp
next
  case (Cons op ops)
  from Cons.prems(3) obtain s1 where 1: "step s op = Inr s1" and 2: "run s1 ops = Inr s'"
    by (auto split: sum.splits)
  from Cons.prems(2) 1 have c: "honoursContract s op" "contractRun s1 ops" by simp_all
  from step_integrity [OF Cons.prems(1) c(1) 1] have "referentialIntegrity s1" .
  from Cons.IH [OF this c(2) 2] show ?case .
qed

lemma contractRun_take: "contractRun s ops \<Longrightarrow> contractRun s (take k ops)"
proof (induction ops arbitrary: s k)
  case Nil
  then show ?case by simp
next
  case (Cons op ops)
  then show ?case by (cases k) (auto split: sum.splits)
qed

lemma seed_frameIntegrity:
  "frameIntegrity mainFrame" "frameIntegrity scientificCarbonFrame"
  "frameIntegrity climateModelsDetailFrame"
proof -
  show "frameIntegrity mainFrame"
    unfolding frameIntegrity_def nodeIds_seed by (simp add: mainFrame_def)
  show "frameIntegrity scientificCarbonFrame"
    unfolding frameIntegrity_def nodeIds_seed by (simp add: scientificCarbonFrame_def)
  show "frameIntegrity climateModelsDetailFrame"
    unfolding frameIntegrity_def nodeIds_seed by (simp add: climateModelsDetailFrame_def)
qed

lemma seed_integrity: "referentialIntegrity initialState"
proof -
  have "ran (frames initialState) = {mainFrame, scientificCarbonFrame, climateModelsDetailFrame}"
    by (simp add: initialState_def ran_exampleData)
  then show ?thesis
    by (simp add: referentialIntegrity_def seed_frameIntegrity)
qed

text \<open>
  Claim C2, as the code has it. The store checks no endpoint. From a state in which every
  arrow joins nodes of its own frame, a run whose actions honour the callers' contract
  (\<open>contractRun\<close>) reaches, after each of its operations, a state in which that holds
  again: \<^verbatim>\<open>deleteNode\<close> removes the incident arrows, \<^verbatim>\<open>deleteArrow\<close>, \<^verbatim>\<open>createNode\<close> and the
  navigation preserve it by themselves, and the other actions preserve it when their
  arguments are as the contract says.
\<close>

theorem referentialIntegrity_preserved:
  assumes "referentialIntegrity s" and "contractRun s ops" and "run s (take k ops) = Inr s'"
  shows "referentialIntegrity s'"
  using run_integrity [OF assms(1) contractRun_take [OF assms(2)] assms(3)] .

text \<open>
  On the seed state: an arrow is created between two nodes of the main frame, then one of
  them is deleted, and the arrow with it.
\<close>

text \<open>
  On the seed state: an arrow is created between two nodes of the main frame, then one of
  them is deleted, and the arrow with it.
\<close>

theorem referentialIntegrity_preserved_witness:
  "referentialIntegrity initialState \<and>
   contractRun initialState joinedThenDeleted \<and>
   (\<exists>s'. run initialState (take 2 joinedThenDeleted) = Inr s' \<and>
      map arrow_id (arrows (the (frames s' ''main'')))
        = [''arrow-scientific-to-economic'', ''arrow-economic-to-implementation''] \<and>
      referentialIntegrity s')"
proof -
  let ?e = "spreadArrow \<lparr> arrow_id = ''a9'', arrow_source = [], arrow_target = [],
              arrow_type = Logical, hasSubFrame = False, subFrameId = None \<rparr>
              (noArrowFields\<lparr> pa_source := Some ''carbon-tax'', pa_target := Some ''economic-analysis'' \<rparr>)"
  let ?s1 = "initialState\<lparr>frames := (frames initialState)(''main'' \<mapsto>
               mainFrame\<lparr>arrows := arrows mainFrame @ [?e]\<rparr>)\<rparr>"
  let ?f2 = "mainFrame\<lparr> nodes := filter (\<lambda>n. node_id n \<noteq> ''carbon-tax'') (nodes mainFrame),
               arrows := filter (\<lambda>a. arrow_source a \<noteq> ''carbon-tax'' \<and> arrow_target a \<noteq> ''carbon-tax'')
                 (arrows mainFrame @ [?e]) \<rparr>"
  let ?s2 = "?s1\<lparr>frames := (frames ?s1)(''main'' \<mapsto> ?f2)\<rparr>"
  have 1: "step initialState (CreateArrow ''main'' ''a9''
         (noArrowFields\<lparr> pa_source := Some ''carbon-tax'', pa_target := Some ''economic-analysis'' \<rparr>))
       = Inr ?s1"
    by (simp add: createArrow_def getFrame_own seed_main Let_def)
  have 2: "step ?s1 (DeleteNode ''main'' ''carbon-tax'') = Inr ?s2"
    by (simp add: deleteNode_def getFrame_def)
  have c: "contractRun initialState joinedThenDeleted"
    by (simp add: joinedThenDeleted_def 1 2 seed_main nodeIds_seed orElse_def del: step.simps)
  have r: "run initialState (take 2 joinedThenDeleted) = Inr ?s2"
    by (simp add: joinedThenDeleted_def 1 2 del: step.simps)
  have e: "arrow_source ?e = ''carbon-tax''"
    by (simp add: spreadArrow_def noArrowFields_def orElse_def)
  have a: "map arrow_id (arrows (the (frames ?s2 ''main'')))
        = [''arrow-scientific-to-economic'', ''arrow-economic-to-implementation'']"
    by (simp add: e) (simp add: mainFrame_def)
  from referentialIntegrity_preserved [OF seed_integrity c r] seed_integrity c r a
  show ?thesis by (intro conjI exI)
qed

lemma danglingState_main:
  "frames danglingState ''main'' = Some (mainFrame\<lparr>arrows := arrows mainFrame @
     [spreadArrow \<lparr> arrow_id = ''a9'', arrow_source = [], arrow_target = [],
        arrow_type = Logical, hasSubFrame = False, subFrameId = None \<rparr> noArrowFields]\<rparr>)"
  by (simp add: danglingState_def createArrow_def getFrame_own Let_def seed_main)

text \<open>
  \<^verbatim>\<open>createArrow\<close> with no endpoints among its fields stores an arrow whose source is the
  empty string, which is the id of no node of the main frame.
\<close>

theorem createArrow_dangling_counterexample:
  "referentialIntegrity initialState \<and>
   map arrow_source (arrows (the (frames danglingState ''main'')))
     = [''scientific-evidence'', ''scientific-evidence'', ''economic-analysis'', ''carbon-tax'', []] \<and>
   map node_id (nodes (the (frames danglingState ''main'')))
     = [''scientific-evidence'', ''carbon-tax'', ''economic-analysis'', ''implementation-plan''] \<and>
   \<not> referentialIntegrity danglingState"
proof -
  let ?e = "spreadArrow \<lparr> arrow_id = ''a9'', arrow_source = [], arrow_target = [],
              arrow_type = Logical, hasSubFrame = False, subFrameId = None \<rparr> noArrowFields"
  have e: "arrow_source ?e = []"
    by (simp add: spreadArrow_def noArrowFields_def orElse_def)
  note m = danglingState_main
  have src: "map arrow_source (arrows (the (frames danglingState ''main'')))
     = [''scientific-evidence'', ''scientific-evidence'', ''economic-analysis'', ''carbon-tax'', []]"
    by (simp add: m e) (simp add: mainFrame_def)
  have ids: "map node_id (nodes (the (frames danglingState ''main'')))
     = [''scientific-evidence'', ''carbon-tax'', ''economic-analysis'', ''implementation-plan'']"
    by (simp add: m) (simp add: mainFrame_def)
  have "\<not> frameIntegrity (mainFrame\<lparr>arrows := arrows mainFrame @ [?e]\<rparr>)"
    using nodeIds_seed(1) by (simp add: frameIntegrity_def nodeIds_def e)
  moreover have "mainFrame\<lparr>arrows := arrows mainFrame @ [?e]\<rparr> \<in> ran (frames danglingState)"
    using m by (rule ranI)
  ultimately have "\<not> referentialIntegrity danglingState"
    by (auto simp: referentialIntegrity_def)
  with seed_integrity src ids show ?thesis by (intro conjI)
qed

end
